theory Spec2Isabelle
  imports Complex_Main
begin

section \<open>Errors and arrays\<close>

text \<open>
  The orchestrator in \<^verbatim>\<open>mlagents/trainers/sac/policy.py\<close> moves numeric arrays between
  dictionaries; it never computes with their entries. An array is kept as its shape and
  its entries in row-major order. Every Python exception that the file can raise is a
  value of \<open>error\<close>; \<open>EngineError\<close> stands for a failure inside the computation engine.
\<close>

datatype error = KeyError string | IndexError | ValueError | TypeError | EngineError

record ndarray =
  shape :: "nat list"
  entries :: "real list"

definition nd_size :: "ndarray \<Rightarrow> nat" where
  "nd_size a = prod_list (shape a)"

text \<open>\<^verbatim>\<open>len(a)\<close>: the leading dimension; a zero-dimensional array has no length.\<close>

definition nd_len :: "ndarray \<Rightarrow> error + nat" where
  "nd_len a = (case shape a of [] \<Rightarrow> Inl TypeError | n # _ \<Rightarrow> Inr n)"

text \<open>\<^verbatim>\<open>a.shape[1]\<close>: the shape is a tuple, indexing past its end raises.\<close>

definition shape_at1 :: "ndarray \<Rightarrow> error + nat" where
  "shape_at1 a = (case shape a of _ # w # _ \<Rightarrow> Inr w | _ \<Rightarrow> Inl IndexError)"

text \<open>\<^verbatim>\<open>a.flatten()\<close>.\<close>

definition flatten :: "ndarray \<Rightarrow> ndarray" where
  "flatten a = \<lparr>shape = [nd_size a], entries = entries a\<rparr>"

text \<open>
  \<^verbatim>\<open>a.reshape([-1] + dims)\<close>: the unknown leading dimension is the size divided by the
  product of the known ones; numpy refuses when that product is zero or does not divide
  the size.
\<close>

definition reshape_unknown_first :: "ndarray \<Rightarrow> nat list \<Rightarrow> error + ndarray" where
  "reshape_unknown_first a dims =
     (let known = prod_list dims in
      if known = 0 \<or> nd_size a mod known \<noteq> 0 then Inl ValueError
      else Inr \<lparr>shape = (nd_size a div known) # dims, entries = entries a\<rparr>)"

text \<open>\<^verbatim>\<open>a[idx]\<close> for an integer index: negative indices count from the end.\<close>

definition nd_index :: "ndarray \<Rightarrow> int \<Rightarrow> error + ndarray" where
  "nd_index a idx =
     (case shape a of
        [] \<Rightarrow> Inl IndexError
      | n # rest \<Rightarrow>
          (let j = (if idx < 0 then idx + int n else idx) in
           if 0 \<le> j \<and> j < int n
           then Inr \<lparr>shape = rest,
                     entries = take (prod_list rest) (drop (nat j * prod_list rest) (entries a))\<rparr>
           else Inl IndexError))"

text \<open>\<^verbatim>\<open>a[:, 0, :]\<close>: needs three axes at least and a first entry on the second axis.\<close>

definition first_timestep :: "ndarray \<Rightarrow> error + ndarray" where
  "first_timestep a =
     (case shape a of
        b # l # m # rest \<Rightarrow>
          (if l = 0 then Inl IndexError
           else Inr \<lparr>shape = b # m # rest,
                     entries = concat (map (\<lambda>i. take (prod_list (m # rest))
                                 (drop (i * l * prod_list (m # rest)) (entries a))) [0..<b])\<rparr>)
      | _ \<Rightarrow> Inl IndexError)"

text \<open>\<^verbatim>\<open>np.zeros((n, m))\<close>.\<close>

definition zeros :: "nat \<Rightarrow> nat \<Rightarrow> ndarray" where
  "zeros n m = \<lparr>shape = [n, m], entries = replicate (n * m) 0\<rparr>"

text \<open>\<^verbatim>\<open>"%d" % i\<close> for a non-negative index.\<close>

fun string_of_nat :: "nat \<Rightarrow> string" where
  "string_of_nat n =
     (if n < 10 then [''0123456789'' ! n]
      else string_of_nat (n div 10) @ [''0123456789'' ! (n mod 10)])"

declare string_of_nat.simps [simp del]

section \<open>The model's endpoints, feed dictionaries and the session\<close>

text \<open>
  The named endpoints of the model object that the policy binds or fetches. The entries
  of the lists \<^verbatim>\<open>rewards_holders\<close>, \<^verbatim>\<open>visual_in\<close> and \<^verbatim>\<open>next_visual_in\<close> are named by their
  position: each placeholder is a node of its own in the graph.
\<close>

datatype tensor =
    T_batch_size | T_sequence_length | T_mask_input | T_rewards_holders nat
  | T_action_holder | T_prev_action | T_action_masks
  | T_vector_in | T_next_vector_in | T_visual_in nat | T_next_visual_in nat
  | T_memory_in | T_dones_holder | T_new_reward
  | T_output | T_all_log_probs | T_value | T_entropy | T_learning_rate
  | T_memory_out | T_update_normalization
  | T_total_value_loss | T_policy_loss | T_q1_loss | T_q2_loss | T_ent_coef
  | T_update_batch_policy | T_update_batch_value | T_update_batch_entropy
  | T_target_init_op | T_target_update_op | T_last_reward | T_update_reward

datatype feed_value = FInt int | FFloat real | FArray ndarray | FList "ndarray list"

type_synonym feed_dict = "tensor \<rightharpoonup> feed_value"

type_synonym mini_batch = "string \<rightharpoonup> ndarray"

type_synonym run_out = "(string \<times> ndarray) list"

text \<open>
  The session: the parameters of the network (online and target networks, entropy
  coefficient, normalization statistics) as an abstract state \<open>'p\<close>, the Rolling Reward
  Estimate, and the log of the executions requested so far (fetches and feed), which is
  what a call-count probe on the engine would record.
\<close>

record 'p session =
  params :: 'p
  last_reward_var :: real
  calls :: "(tensor list \<times> feed_dict) list"

section \<open>Observation batches, decisions, configuration\<close>

text \<open>The fields of \<^verbatim>\<open>BrainInfo\<close> that the policy reads or writes.\<close>

record brain_info =
  vector_observations :: ndarray
  visual_observations :: "ndarray list"
  memories :: ndarray
  previous_vector_actions :: ndarray
  agents :: "nat list"

datatype pyobj = PyNone | PyEmptyList | PyArray ndarray

text \<open>\<^verbatim>\<open>ActionInfo(action, memory, text, value, outputs)\<close>.\<close>

record action_info =
  ai_action :: pyobj
  ai_memory :: pyobj
  ai_text :: pyobj
  ai_value :: pyobj
  ai_outputs :: "run_out option"

record brain_parameters =
  vector_action_space_size :: "nat list"
  number_visual_observations :: nat

text \<open>
  The keys of \<^verbatim>\<open>trainer_params\<close> that the constructor reads. The keys every configuration
  has are fields; the two that only one reward signal needs may be absent.
\<close>

record trainer_params =
  tp_reward_signals :: "string list"
  tp_reward_strength :: "real list"
  tp_learning_rate :: real
  tp_hidden_units :: int
  tp_init_entcoef :: real
  tp_max_steps :: real
  tp_normalize :: bool
  tp_use_recurrent :: bool
  tp_num_layers :: int
  tp_tau :: real
  tp_gammas :: "real list"
  tp_curiosity_enc_size :: "real option"
  tp_demo_path :: "string option"

text \<open>
  The reward-signal objects, by their constructor arguments (the reference to the policy
  that three of them receive is left out: it would make the record cyclic).
\<close>

datatype reward_signal =
    ExtrinsicSignal real
  | CuriositySignal real real
  | GAILSignal int real string real
  | EntropySignal real

text \<open>The attributes of the model object that the policy reads.\<close>

record sac_model =
  stream_names :: "string list"
  n_rewards_holders :: nat
  n_visual_in :: nat
  n_next_visual_in :: nat
  vis_obs_size :: nat
  act_size :: "nat list"

text \<open>What \<^verbatim>\<open>Policy.__init__\<close> (the base class, not part of this file) has set.\<close>

record policy_base =
  brain :: brain_parameters
  use_recurrent :: bool
  use_continuous_act :: bool
  use_vec_obs :: bool
  vec_obs_size :: nat
  m_size :: nat
  sequence_length :: int

record policy = policy_base +
  model :: sac_model
  reward_signals :: "(string \<times> reward_signal) list"
  inference_dict :: "(string \<times> tensor) list"
  update_dict :: "(string \<times> tensor) list"

text \<open>
  The collaborators outside this file: the engine behind \<^verbatim>\<open>sess.run\<close>, which maps the
  fetches, the feed and the parameters to the fetched values (or a failure) and the new
  parameters, and three methods of the base class.
\<close>

record 'p env =
  net_run :: "tensor list \<Rightarrow> feed_dict \<Rightarrow> 'p \<Rightarrow> (error + ndarray list) \<times> 'p"
  fill_eval_dict :: "feed_dict \<Rightarrow> brain_info \<Rightarrow> error + feed_dict"
  load_graph :: "'p \<Rightarrow> 'p"
  initialize_graph :: "'p \<Rightarrow> 'p"

text \<open>
  \<^verbatim>\<open>sess.run(fetches, feed_dict)\<close>: the engine runs on the parameters, and the request is
  logged. A single fetch is the one-element list of fetches.
\<close>

definition sess_run ::
  "'p env \<Rightarrow> tensor list \<Rightarrow> feed_dict \<Rightarrow> 'p session \<Rightarrow> (error + ndarray list) \<times> 'p session" where
  "sess_run E fetches fd s =
     (case net_run E fetches fd (params s) of
        (r, ps) \<Rightarrow> (r, s\<lparr>params := ps, calls := calls s @ [(fetches, fd)]\<rparr>))"

text \<open>
  Modelled from the spec: \<^verbatim>\<open>Policy._execute_model\<close> of the base class is missing from the
  sources; it "executes" the pass for the outputs of the given dictionary and "returns a
  mapping" from their names to the fetched values.
\<close>

definition execute_model ::
  "'p env \<Rightarrow> feed_dict \<Rightarrow> (string \<times> tensor) list \<Rightarrow> 'p session \<Rightarrow> (error + run_out) \<times> 'p session" where
  "execute_model E fd out_dict s =
     (case sess_run E (map snd out_dict) fd s of
        (Inl e, s1) \<Rightarrow> (Inl e, s1)
      | (Inr network_out, s1) \<Rightarrow> (Inr (zip (map fst out_dict) network_out), s1))"

text \<open>
  Modelled from the spec: \<^verbatim>\<open>Policy.make_empty_memory\<close> of the base class is missing from the
  sources; it yields "a zero-initialized array sized (agentCount, memorySize)".
\<close>

definition make_empty_memory :: "policy \<Rightarrow> nat \<Rightarrow> ndarray" where
  "make_empty_memory p num_agents = zeros num_agents (m_size p)"

section \<open>Construction\<close>

text \<open>
  A Python dictionary keeps its keys in insertion order; storing under a key that is
  already there keeps the key's position and replaces its value.
\<close>

fun dict_set :: "'k \<Rightarrow> 'v \<Rightarrow> ('k \<times> 'v) list \<Rightarrow> ('k \<times> 'v) list" where
  "dict_set k v [] = [(k, v)]"
| "dict_set k v ((k0, v0) # d) = (if k0 = k then (k, v) # d else (k0, v0) # dict_set k v d)"

text \<open>\<^verbatim>\<open>dict(pairs)\<close>.\<close>

definition dict_of :: "('k \<times> 'v) list \<Rightarrow> ('k \<times> 'v) list" where
  "dict_of kvs = foldl (\<lambda>d (k, v). dict_set k v d) [] kvs"

text \<open>\<^verbatim>\<open>d.keys()\<close>, in iteration order.\<close>

definition keys :: "('k \<times> 'v) list \<Rightarrow> 'k list" where
  "keys d = map fst d"

text \<open>
  Modelled from the spec: the constructor \<^verbatim>\<open>SACModel\<close> (\<^verbatim>\<open>mlagents/trainers/sac/models.py\<close>) is
  missing from the sources. The model exposes a "reward-holders array sized to the
  registered signal count", its "parallel reward-input slots", one per stream name it is
  given and in that order, and one visual input "per visual stream and its next-step
  counterpart"; the action sizes are those of the brain.
\<close>

definition SACModel :: "brain_parameters \<Rightarrow> string list \<Rightarrow> sac_model" where
  "SACModel b names =
     \<lparr>stream_names = names,
      n_rewards_holders = length names,
      n_visual_in = number_visual_observations b,
      n_next_visual_in = number_visual_observations b,
      vis_obs_size = number_visual_observations b,
      act_size = vector_action_space_size b\<rparr>"

text \<open>Lines 54 to 78: the registry, filled in a fixed order from the names configured.\<close>

definition register_signals ::
  "trainer_params \<Rightarrow> (string \<times> real) list \<Rightarrow> error + (string \<times> reward_signal) list" where
  "register_signals tp reward_strengths =
     (let r1 = (case map_of reward_strengths ''extrinsic'' of
                  None \<Rightarrow> []
                | Some st \<Rightarrow> [(''extrinsic'', ExtrinsicSignal st)]) in
      case (case map_of reward_strengths ''curiosity'' of
              None \<Rightarrow> Inr r1
            | Some st \<Rightarrow>
                (case tp_curiosity_enc_size tp of
                   None \<Rightarrow> Inl (KeyError ''curiosity_enc_size'')
                 | Some enc \<Rightarrow> Inr (dict_set ''curiosity'' (CuriositySignal st enc) r1))) of
        Inl e \<Rightarrow> Inl e
      | Inr r2 \<Rightarrow>
          (case (case map_of reward_strengths ''gail'' of
                   None \<Rightarrow> Inr r2
                 | Some st \<Rightarrow>
                     (case tp_demo_path tp of
                        None \<Rightarrow> Inl (KeyError ''demo_path'')
                      | Some path \<Rightarrow>
                          Inr (dict_set ''gail''
                                 (GAILSignal (tp_hidden_units tp) (tp_learning_rate tp) path st) r2))) of
             Inl e \<Rightarrow> Inl e
           | Inr r3 \<Rightarrow>
               (case map_of reward_strengths ''entropy'' of
                  None \<Rightarrow> Inr r3
                | Some st \<Rightarrow> Inr (dict_set ''entropy'' (EntropySignal st) r3))))"

text \<open>Lines 98 to 115.\<close>

definition make_inference_dict ::
  "policy_base \<Rightarrow> trainer_params \<Rightarrow> bool \<Rightarrow> bool \<Rightarrow> (string \<times> tensor) list" where
  "make_inference_dict base tp is_training load =
     (let d0 = [(''action'', T_output), (''log_probs'', T_all_log_probs), (''value'', T_value),
                (''entropy'', T_entropy), (''learning_rate'', T_learning_rate)];
          d1 = (if use_recurrent base then dict_set ''memory_out'' T_memory_out d0 else d0)
      in if is_training \<and> use_vec_obs base \<and> tp_normalize tp \<and> \<not> load
         then dict_set ''update_mean'' T_update_normalization d1 else d1)"

text \<open>Lines 117 to 127.\<close>

definition make_update_dict :: "(string \<times> tensor) list" where
  "make_update_dict =
     [(''value_loss'', T_total_value_loss), (''policy_loss'', T_policy_loss),
      (''q1_loss'', T_q1_loss), (''q2_loss'', T_q2_loss), (''entropy_coef'', T_ent_coef),
      (''entropy'', T_entropy), (''update_batch'', T_update_batch_policy),
      (''update_value'', T_update_batch_value), (''update_entropy'', T_update_batch_entropy)]"

text \<open>
  \<^verbatim>\<open>SACPolicy.__init__\<close>. The base-class state \<open>base\<close> is what \<^verbatim>\<open>super().__init__\<close> left; the
  stream names given to the model are the keys of \<^verbatim>\<open>reward_strengths\<close>.
\<close>

definition SACPolicy_init ::
  "'p env \<Rightarrow> policy_base \<Rightarrow> trainer_params \<Rightarrow> bool \<Rightarrow> bool \<Rightarrow> 'p session
     \<Rightarrow> error + (policy \<times> 'p session)" where
  "SACPolicy_init E base tp is_training load s =
     (let reward_strengths = dict_of (zip (tp_reward_signals tp) (tp_reward_strength tp));
          mdl = SACModel (brain base) (keys reward_strengths)
      in case register_signals tp reward_strengths of
           Inl e \<Rightarrow> Inl e
         | Inr signals \<Rightarrow>
             (case (if load then (Inr [], s\<lparr>params := load_graph E (params s)\<rparr>)
                    else sess_run E [T_target_init_op] Map.empty
                           (s\<lparr>params := initialize_graph E (params s)\<rparr>)) of
                (Inl e, s1) \<Rightarrow> Inl e
              | (Inr _, s1) \<Rightarrow>
                  Inr (\<lparr>brain = brain base, use_recurrent = use_recurrent base,
                        use_continuous_act = use_continuous_act base,
                        use_vec_obs = use_vec_obs base, vec_obs_size = vec_obs_size base,
                        m_size = m_size base, sequence_length = sequence_length base,
                        model = mdl, reward_signals = signals,
                        inference_dict = make_inference_dict base tp is_training load,
                        update_dict = make_update_dict\<rparr>, s1)))"

section \<open>Inference\<close>

text \<open>
  Lines 147 and 148, the same as lines 244 and 245: an observation batch whose memory
  array has no columns gets a zero array, written into the batch object itself.
\<close>

definition seed_memory :: "policy \<Rightarrow> brain_info \<Rightarrow> error + brain_info" where
  "seed_memory p bi =
     (case shape_at1 (memories bi) of
        Inl e \<Rightarrow> Inl e
      | Inr w \<Rightarrow> Inr (if w = 0
                       then bi\<lparr>memories := make_empty_memory p (length (agents bi))\<rparr>
                       else bi))"

text \<open>
  Lines 135 to 149 of \<^verbatim>\<open>evaluate\<close>: the feed dictionary before \<^verbatim>\<open>fill_eval_dict\<close>, and the
  batch object as the caller finds it afterwards.
\<close>

definition evaluate_feed :: "policy \<Rightarrow> brain_info \<Rightarrow> (error + feed_dict) \<times> brain_info" where
  "evaluate_feed p bi =
     (case nd_len (vector_observations bi) of
        Inl e \<Rightarrow> (Inl e, bi)
      | Inr n \<Rightarrow>
          (let fd = [T_batch_size \<mapsto> FInt (int n), T_sequence_length \<mapsto> FInt 1] in
           if use_recurrent p then
             (case (if \<not> use_continuous_act p
                    then (case reshape_unknown_first (previous_vector_actions bi)
                                 [length (act_size (model p))] of
                            Inl e \<Rightarrow> Inl e
                          | Inr a \<Rightarrow> Inr (fd(T_prev_action \<mapsto> FArray a)))
                    else Inr fd) of
                Inl e \<Rightarrow> (Inl e, bi)
              | Inr fd1 \<Rightarrow>
                  (case seed_memory p bi of
                     Inl e \<Rightarrow> (Inl e, bi)
                   | Inr bi1 \<Rightarrow> (Inr (fd1(T_memory_in \<mapsto> FArray (memories bi1))), bi1)))
           else (Inr fd, bi)))"

text \<open>\<^verbatim>\<open>SACPolicy.evaluate\<close>.\<close>

definition evaluate ::
  "'p env \<Rightarrow> policy \<Rightarrow> brain_info \<Rightarrow> 'p session
     \<Rightarrow> (error + run_out) \<times> brain_info \<times> 'p session" where
  "evaluate E p bi s =
     (case evaluate_feed p bi of
        (Inl e, bi1) \<Rightarrow> (Inl e, bi1, s)
      | (Inr fd, bi1) \<Rightarrow>
          (case fill_eval_dict E fd bi1 of
             Inl e \<Rightarrow> (Inl e, bi1, s)
           | Inr fd1 \<Rightarrow>
               (case execute_model E fd1 (inference_dict p) s of
                  (r, s1) \<Rightarrow> (r, bi1, s1))))"

text \<open>\<^verbatim>\<open>run_out.get(key)\<close>.\<close>

definition dict_get :: "run_out \<Rightarrow> string \<Rightarrow> pyobj" where
  "dict_get d k = (case map_of d k of None \<Rightarrow> PyNone | Some a \<Rightarrow> PyArray a)"

text \<open>\<^verbatim>\<open>SACPolicy.get_action\<close>.\<close>

definition get_action ::
  "'p env \<Rightarrow> policy \<Rightarrow> brain_info \<Rightarrow> 'p session
     \<Rightarrow> (error + action_info) \<times> brain_info \<times> 'p session" where
  "get_action E p bi s =
     (if length (agents bi) = 0
      then (Inr \<lparr>ai_action = PyEmptyList, ai_memory = PyEmptyList, ai_text = PyEmptyList,
                 ai_value = PyNone, ai_outputs = None\<rparr>, bi, s)
      else (case evaluate E p bi s of
              (Inl e, bi1, s1) \<Rightarrow> (Inl e, bi1, s1)
            | (Inr out, bi1, s1) \<Rightarrow>
                (Inr \<lparr>ai_action = dict_get out ''action'',
                      ai_memory = dict_get out ''memory_out'',
                      ai_text = PyNone,
                      ai_value = dict_get out ''value'',
                      ai_outputs = Some out\<rparr>, bi1, s1)))"

text \<open>
  Lines 237 to 240 of \<^verbatim>\<open>get_value_estimates\<close>: one visual binding per visual observation
  of the batch, each the one-element list holding the row of the agent.
\<close>

fun value_visual ::
  "sac_model \<Rightarrow> ndarray list \<Rightarrow> int \<Rightarrow> nat \<Rightarrow> feed_dict \<Rightarrow> error + feed_dict" where
  "value_visual m [] idx i fd = Inr fd"
| "value_visual m (obs # rest) idx i fd =
     (case nd_index obs idx of
        Inl e \<Rightarrow> Inl e
      | Inr row \<Rightarrow>
          (if i < n_visual_in m
           then value_visual m rest idx (Suc i) (fd(T_visual_in i \<mapsto> FList [row]))
           else Inl IndexError))"

text \<open>Lines 236 to 250: the feed dictionary, and the batch object afterwards.\<close>

definition value_feed ::
  "policy \<Rightarrow> brain_info \<Rightarrow> int \<Rightarrow> (error + feed_dict) \<times> brain_info" where
  "value_feed p bi idx =
     (case value_visual (model p) (visual_observations bi) idx 0
             [T_batch_size \<mapsto> FInt 1, T_sequence_length \<mapsto> FInt 1] of
        Inl e \<Rightarrow> (Inl e, bi)
      | Inr fd \<Rightarrow>
          (case (if use_vec_obs p
                 then (case nd_index (vector_observations bi) idx of
                         Inl e \<Rightarrow> Inl e
                       | Inr row \<Rightarrow> Inr (fd(T_vector_in \<mapsto> FList [row])))
                 else Inr fd) of
             Inl e \<Rightarrow> (Inl e, bi)
           | Inr fd1 \<Rightarrow>
               (case (if use_recurrent p
                      then (case seed_memory p bi of
                              Inl e \<Rightarrow> (Inl e, bi)
                            | Inr bi1 \<Rightarrow>
                                (case nd_index (memories bi1) idx of
                                   Inl e \<Rightarrow> (Inl e, bi1)
                                 | Inr row \<Rightarrow> (Inr (fd1(T_memory_in \<mapsto> FList [row])), bi1)))
                      else (Inr fd1, bi)) of
                  (Inl e, bi1) \<Rightarrow> (Inl e, bi1)
                | (Inr fd2, bi1) \<Rightarrow>
                    (if \<not> use_continuous_act p \<and> use_recurrent p
                     then (case nd_index (previous_vector_actions bi1) idx of
                             Inl e \<Rightarrow> (Inl e, bi1)
                           | Inr row \<Rightarrow>
                               (case reshape_unknown_first row [length (act_size (model p))] of
                                  Inl e \<Rightarrow> (Inl e, bi1)
                                | Inr a \<Rightarrow> (Inr (fd2(T_prev_action \<mapsto> FArray a)), bi1)))
                     else (Inr fd2, bi1)))))"

text \<open>\<^verbatim>\<open>SACPolicy.get_value_estimates\<close>.\<close>

definition get_value_estimates ::
  "'p env \<Rightarrow> policy \<Rightarrow> brain_info \<Rightarrow> int \<Rightarrow> 'p session
     \<Rightarrow> (error + ndarray list) \<times> brain_info \<times> 'p session" where
  "get_value_estimates E p bi idx s =
     (case value_feed p bi idx of
        (Inl e, bi1) \<Rightarrow> (Inl e, bi1, s)
      | (Inr fd, bi1) \<Rightarrow>
          (case sess_run E [T_value] fd s of (r, s1) \<Rightarrow> (r, bi1, s1)))"

section \<open>Update\<close>

text \<open>\<^verbatim>\<open>mini_batch[key]\<close>.\<close>

definition mb_get :: "mini_batch \<Rightarrow> string \<Rightarrow> error + ndarray" where
  "mb_get mb k = (case mb k of None \<Rightarrow> Inl (KeyError k) | Some a \<Rightarrow> Inr a)"

text \<open>\<^verbatim>\<open>"{}_rewards".format(name)\<close>.\<close>

definition rewards_key :: "string \<Rightarrow> string" where
  "rewards_key name = name @ ''_rewards''"

text \<open>
  Lines 171 to 174: the loop over the keys of the registry, the counter \<open>i\<close> running with
  it. The column is read before the slot \<^verbatim>\<open>rewards_holders[i]\<close> is.
\<close>

fun bind_rewards ::
  "sac_model \<Rightarrow> mini_batch \<Rightarrow> nat \<Rightarrow> string list \<Rightarrow> feed_dict \<Rightarrow> error + feed_dict" where
  "bind_rewards m mb i [] fd = Inr fd"
| "bind_rewards m mb i (name # names) fd =
     (case mb_get mb (rewards_key name) of
        Inl e \<Rightarrow> Inl e
      | Inr col \<Rightarrow>
          (if i < n_rewards_holders m
           then bind_rewards m mb (Suc i) names (fd(T_rewards_holders i \<mapsto> FArray (flatten col)))
           else Inl IndexError))"

text \<open>Lines 166 to 174: the feed dictionary once the reward columns are bound.\<close>

definition update_reward_bindings :: "policy \<Rightarrow> mini_batch \<Rightarrow> int \<Rightarrow> error + feed_dict" where
  "update_reward_bindings p mb num_sequences =
     (case mb_get mb ''masks'' of
        Inl e \<Rightarrow> Inl e
      | Inr masks \<Rightarrow>
          bind_rewards (model p) mb 0 (keys (reward_signals p))
            [T_batch_size \<mapsto> FInt num_sequences,
             T_sequence_length \<mapsto> FInt (sequence_length p),
             T_mask_input \<mapsto> FArray (flatten masks)])"

text \<open>Binding \<^verbatim>\<open>mini_batch[key].reshape([-1] + dims)\<close> to a placeholder.\<close>

definition bind_reshaped ::
  "mini_batch \<Rightarrow> string \<Rightarrow> nat list \<Rightarrow> tensor \<Rightarrow> feed_dict \<Rightarrow> error + feed_dict" where
  "bind_reshaped mb k dims t fd =
     (case mb_get mb k of
        Inl e \<Rightarrow> Inl e
      | Inr a \<Rightarrow>
          (case reshape_unknown_first a dims of
             Inl e \<Rightarrow> Inl e
           | Inr r \<Rightarrow> Inr (fd(t \<mapsto> FArray r))))"

text \<open>Lines 176 to 190.\<close>

definition bind_actions :: "policy \<Rightarrow> mini_batch \<Rightarrow> feed_dict \<Rightarrow> error + feed_dict" where
  "bind_actions p mb fd =
     (if use_continuous_act p then
        (case mb_get mb ''actions'' of
           Inl e \<Rightarrow> Inl e
         | Inr a \<Rightarrow>
             (case act_size (model p) of
                [] \<Rightarrow> Inl IndexError
              | d # _ \<Rightarrow>
                  (case reshape_unknown_first a [d] of
                     Inl e \<Rightarrow> Inl e
                   | Inr r \<Rightarrow> Inr (fd(T_action_holder \<mapsto> FArray r)))))
      else
        (case bind_reshaped mb ''actions'' [length (act_size (model p))] T_action_holder fd of
           Inl e \<Rightarrow> Inl e
         | Inr fd1 \<Rightarrow>
             (case (if use_recurrent p
                    then bind_reshaped mb ''prev_action'' [length (act_size (model p))]
                           T_prev_action fd1
                    else Inr fd1) of
                Inl e \<Rightarrow> Inl e
              | Inr fd2 \<Rightarrow>
                  bind_reshaped mb ''action_mask''
                    [sum_list (vector_action_space_size (brain p))] T_action_masks fd2)))"

text \<open>Lines 191 to 197.\<close>

definition bind_vector_obs :: "policy \<Rightarrow> mini_batch \<Rightarrow> feed_dict \<Rightarrow> error + feed_dict" where
  "bind_vector_obs p mb fd =
     (if use_vec_obs p then
        (case bind_reshaped mb ''vector_obs'' [vec_obs_size p] T_vector_in fd of
           Inl e \<Rightarrow> Inl e
         | Inr fd1 \<Rightarrow> bind_reshaped mb ''next_vector_in'' [vec_obs_size p] T_next_vector_in fd1)
      else Inr fd)"

text \<open>
  Lines 201 to 205, the same as lines 209 to 215: what is bound for one visual array.
  Unpacking the shape into five names raises unless the array has five axes.
\<close>

definition collapse_sequence :: "policy \<Rightarrow> ndarray \<Rightarrow> error + ndarray" where
  "collapse_sequence p obs =
     (if sequence_length p > 1 \<and> use_recurrent p then
        (case shape obs of
           [b, sq, w, h, c] \<Rightarrow> reshape_unknown_first obs [w, h, c]
         | _ \<Rightarrow> Inl ValueError)
      else Inr obs)"

text \<open>
  The loop of lines 199 to 205 (key prefix \<^verbatim>\<open>visual_obs\<close>, slots \<^verbatim>\<open>visual_in\<close>) and the loop
  of lines 207 to 215 (key prefix \<^verbatim>\<open>next_visual_obs\<close>, slots \<^verbatim>\<open>next_visual_in\<close>), over the
  positions of the slot list.
\<close>

fun bind_visual ::
  "policy \<Rightarrow> mini_batch \<Rightarrow> string \<Rightarrow> (nat \<Rightarrow> tensor) \<Rightarrow> nat list \<Rightarrow> feed_dict
     \<Rightarrow> error + feed_dict" where
  "bind_visual p mb prefix slot [] fd = Inr fd"
| "bind_visual p mb prefix slot (i # rest) fd =
     (case mb_get mb (prefix @ string_of_nat i) of
        Inl e \<Rightarrow> Inl e
      | Inr obs \<Rightarrow>
          (case collapse_sequence p obs of
             Inl e \<Rightarrow> Inl e
           | Inr v \<Rightarrow> bind_visual p mb prefix slot rest (fd(slot i \<mapsto> FArray v))))"

text \<open>Lines 198 to 215.\<close>

definition bind_visual_obs :: "policy \<Rightarrow> mini_batch \<Rightarrow> feed_dict \<Rightarrow> error + feed_dict" where
  "bind_visual_obs p mb fd =
     (if vis_obs_size (model p) > 0 then
        (case bind_visual p mb ''visual_obs'' T_visual_in [0..<n_visual_in (model p)] fd of
           Inl e \<Rightarrow> Inl e
         | Inr fd1 \<Rightarrow>
             bind_visual p mb ''next_visual_obs'' T_next_visual_in
               [0..<n_next_visual_in (model p)] fd1)
      else Inr fd)"

text \<open>Lines 216 to 219.\<close>

definition bind_memory_done :: "policy \<Rightarrow> mini_batch \<Rightarrow> feed_dict \<Rightarrow> error + feed_dict" where
  "bind_memory_done p mb fd =
     (case (if use_recurrent p then
              (case mb_get mb ''memory'' of
                 Inl e \<Rightarrow> Inl e
               | Inr a \<Rightarrow>
                   (case first_timestep a of
                      Inl e \<Rightarrow> Inl e
                    | Inr mem_in \<Rightarrow> Inr (fd(T_memory_in \<mapsto> FArray mem_in))))
            else Inr fd) of
        Inl e \<Rightarrow> Inl e
      | Inr fd1 \<Rightarrow>
          (case mb_get mb ''done'' of
             Inl e \<Rightarrow> Inl e
           | Inr d \<Rightarrow> Inr (fd1(T_dones_holder \<mapsto> FArray (flatten d)))))"

text \<open>Lines 166 to 219: the whole feed dictionary of \<^verbatim>\<open>update\<close>.\<close>

definition update_feed :: "policy \<Rightarrow> mini_batch \<Rightarrow> int \<Rightarrow> error + feed_dict" where
  "update_feed p mb num_sequences =
     (case update_reward_bindings p mb num_sequences of
        Inl e \<Rightarrow> Inl e
      | Inr fd0 \<Rightarrow>
          (case bind_actions p mb fd0 of
             Inl e \<Rightarrow> Inl e
           | Inr fd1 \<Rightarrow>
               (case bind_vector_obs p mb fd1 of
                  Inl e \<Rightarrow> Inl e
                | Inr fd2 \<Rightarrow>
                    (case bind_visual_obs p mb fd2 of
                       Inl e \<Rightarrow> Inl e
                     | Inr fd3 \<Rightarrow> bind_memory_done p mb fd3))))"

text \<open>
  \<^verbatim>\<open>SACPolicy.update\<close>: the main pass on the session as found, and then, if asked for, the
  target synchronisation on the session the main pass has left.
\<close>

definition update ::
  "'p env \<Rightarrow> policy \<Rightarrow> mini_batch \<Rightarrow> int \<Rightarrow> bool \<Rightarrow> 'p session
     \<Rightarrow> (error + run_out) \<times> 'p session" where
  "update E p mb num_sequences update_target s =
     (case update_feed p mb num_sequences of
        Inl e \<Rightarrow> (Inl e, s)
      | Inr fd \<Rightarrow>
          (case execute_model E fd (update_dict p) s of
             (Inl e, s1) \<Rightarrow> (Inl e, s1)
           | (Inr out, s1) \<Rightarrow>
               (if update_target then
                  (case sess_run E [T_target_update_op] Map.empty s1 of
                     (Inl e, s2) \<Rightarrow> (Inl e, s2)
                   | (Inr _, s2) \<Rightarrow> (Inr out, s2))
                else (Inr out, s1))))"

section \<open>Reward bookkeeping\<close>

text \<open>
  Modelled from the spec: the endpoints \<^verbatim>\<open>last_reward\<close>, \<^verbatim>\<open>new_reward\<close> and \<^verbatim>\<open>update_reward\<close> are
  created by the model, which is missing from the sources. Running \<^verbatim>\<open>last_reward\<close> is a
  "pure read of the persistent Rolling Reward Estimate"; running \<^verbatim>\<open>update_reward\<close> with
  \<^verbatim>\<open>new_reward\<close> bound "overwrites the Rolling Reward Estimate with the supplied value".
  Both requests are logged like any other.
\<close>

definition run_last_reward :: "'p session \<Rightarrow> real \<times> 'p session" where
  "run_last_reward s =
     (last_reward_var s, s\<lparr>calls := calls s @ [([T_last_reward], Map.empty)]\<rparr>)"

definition run_update_reward :: "feed_dict \<Rightarrow> 'p session \<Rightarrow> error + 'p session" where
  "run_update_reward fd s =
     (case fd T_new_reward of
        Some (FFloat x) \<Rightarrow>
          Inr (s\<lparr>last_reward_var := x, calls := calls s @ [([T_update_reward], fd)]\<rparr>)
      | _ \<Rightarrow> Inl EngineError)"

text \<open>\<^verbatim>\<open>SACPolicy.get_last_reward\<close>.\<close>

definition get_last_reward :: "'p session \<Rightarrow> real \<times> 'p session" where
  "get_last_reward s = run_last_reward s"

text \<open>\<^verbatim>\<open>SACPolicy.update_reward\<close>.\<close>

definition update_reward :: "real \<Rightarrow> 'p session \<Rightarrow> error + 'p session" where
  "update_reward new_reward s = run_update_reward [T_new_reward \<mapsto> FFloat new_reward] s"

section \<open>The shape the engine sees, and the consistency of a batch\<close>

text \<open>
  The shape of a fed value as the engine converts it: a list of equally shaped arrays is
  an array with one more leading axis.
\<close>

definition feed_shape :: "feed_value \<Rightarrow> nat list" where
  "feed_shape v =
     (case v of
        FInt _ \<Rightarrow> []
      | FFloat _ \<Rightarrow> []
      | FArray a \<Rightarrow> shape a
      | FList rows \<Rightarrow> (case rows of [] \<Rightarrow> [0] | r # _ \<Rightarrow> length rows # shape r))"

text \<open>
  Modelled from the spec: the class \<^verbatim>\<open>BrainInfo\<close> is missing from the sources. Of an
  Observation Batch the spec states the invariant that the "batch size is consistent
  across all present observation modalities within one call": the vector observations
  have one row per agent.
\<close>

definition consistent_batch :: "brain_info \<Rightarrow> bool" where
  "consistent_batch bi = (nd_len (vector_observations bi) = Inr (length (agents bi)))"

section \<open>Example inputs\<close>

text \<open>
  An engine that returns one scalar per fetch and counts its executions in the
  parameters, with a \<^verbatim>\<open>fill_eval_dict\<close> that binds the vector observations.
\<close>

definition probe_env :: "nat env" where
  "probe_env =
     \<lparr>net_run = (\<lambda>fetches fd n. (Inr (map (\<lambda>t. \<lparr>shape = [], entries = [1]\<rparr>) fetches), Suc n)),
      fill_eval_dict = (\<lambda>fd bi. Inr (fd(T_vector_in \<mapsto> FArray (vector_observations bi)))),
      load_graph = (\<lambda>n. n),
      initialize_graph = (\<lambda>n. 0)\<rparr>"

definition ex_session :: "nat session" where
  "ex_session = \<lparr>params = 0, last_reward_var = 5, calls = []\<rparr>"

text \<open>A recurrent policy with continuous actions, vector observations and one camera.\<close>

definition ex_base :: policy_base where
  "ex_base =
     \<lparr>brain = \<lparr>vector_action_space_size = [2], number_visual_observations = 1\<rparr>,
      use_recurrent = True, use_continuous_act = True, use_vec_obs = True,
      vec_obs_size = 2, m_size = 3, sequence_length = 2\<rparr>"

definition ex_params :: "string list \<Rightarrow> trainer_params" where
  "ex_params names =
     \<lparr>tp_reward_signals = names, tp_reward_strength = [1, 1],
      tp_learning_rate = 1, tp_hidden_units = 8, tp_init_entcoef = 1, tp_max_steps = 100,
      tp_normalize = True, tp_use_recurrent = True, tp_num_layers = 1, tp_tau = 1,
      tp_gammas = [1, 1], tp_curiosity_enc_size = Some 4, tp_demo_path = None\<rparr>"

text \<open>The policy that the constructor builds for the names \<^verbatim>\<open>extrinsic, curiosity\<close>.\<close>

definition ex_policy :: policy where
  "ex_policy =
     \<lparr>brain = brain ex_base, use_recurrent = True, use_continuous_act = True,
      use_vec_obs = True, vec_obs_size = 2, m_size = 3, sequence_length = 2,
      model = SACModel (brain ex_base) [''extrinsic'', ''curiosity''],
      reward_signals = [(''extrinsic'', ExtrinsicSignal 1), (''curiosity'', CuriositySignal 1 4)],
      inference_dict = make_inference_dict ex_base (ex_params []) True False,
      update_dict = make_update_dict\<rparr>"

text \<open>Two agents, no memory yet.\<close>

definition ex_batch :: brain_info where
  "ex_batch =
     \<lparr>vector_observations = \<lparr>shape = [2, 2], entries = [1, 2, 3, 4]\<rparr>,
      visual_observations = [\<lparr>shape = [2, 1, 1, 1], entries = [5, 6]\<rparr>],
      memories = \<lparr>shape = [0, 0], entries = []\<rparr>,
      previous_vector_actions = \<lparr>shape = [2, 1], entries = [0, 0]\<rparr>,
      agents = [7, 8]\<rparr>"

text \<open>One sequence of two steps, with the visual column given as a parameter.\<close>

definition ex_mini_batch :: "ndarray \<Rightarrow> mini_batch" where
  "ex_mini_batch vis =
     [''masks'' \<mapsto> \<lparr>shape = [1, 2], entries = [1, 1]\<rparr>,
      ''extrinsic_rewards'' \<mapsto> \<lparr>shape = [1, 2], entries = [10, 11]\<rparr>,
      ''curiosity_rewards'' \<mapsto> \<lparr>shape = [1, 2], entries = [20, 21]\<rparr>,
      ''actions'' \<mapsto> \<lparr>shape = [1, 2, 2], entries = [1, 2, 3, 4]\<rparr>,
      ''vector_obs'' \<mapsto> \<lparr>shape = [1, 2, 2], entries = [1, 2, 3, 4]\<rparr>,
      ''next_vector_in'' \<mapsto> \<lparr>shape = [1, 2, 2], entries = [3, 4, 5, 6]\<rparr>,
      ''visual_obs0'' \<mapsto> vis,
      ''next_visual_obs0'' \<mapsto> vis,
      ''memory'' \<mapsto> \<lparr>shape = [1, 2, 3], entries = [0, 0, 0, 0, 0, 0]\<rparr>,
      ''done'' \<mapsto> \<lparr>shape = [1, 2], entries = [0, 1]\<rparr>]"

section \<open>Lemmas: the session log\<close>

lemma sess_run_calls:
  "calls (snd (sess_run E fetches fd s)) = calls s @ [(fetches, fd)]"
  by (simp add: sess_run_def split: prod.split)

lemma sess_run_params:
  "params (snd (sess_run E fetches fd s)) = snd (net_run E fetches fd (params s))"
  by (simp add: sess_run_def split: prod.split)

lemma execute_model_session:
  "snd (execute_model E fd out_dict s) = snd (sess_run E (map snd out_dict) fd s)"
  by (simp add: execute_model_def split: prod.split sum.split)

section \<open>Lemmas: the inference frames\<close>

lemma seed_memory_empty:
  "shape_at1 (memories bi) = Inr 0 \<Longrightarrow>
     seed_memory p bi = Inr (bi\<lparr>memories := zeros (length (agents bi)) (m_size p)\<rparr>)"
  by (simp add: seed_memory_def make_empty_memory_def)

lemma seed_memory_nonempty:
  "shape_at1 (memories bi) = Inr w \<Longrightarrow> w \<noteq> 0 \<Longrightarrow> seed_memory p bi = Inr bi"
  by (simp add: seed_memory_def)

lemma seed_memory_frame:
  "seed_memory p bi = Inr bi1 \<Longrightarrow>
     bi1 = bi \<or> bi1 = bi\<lparr>memories := zeros (length (agents bi)) (m_size p)\<rparr>"
  by (auto simp: seed_memory_def make_empty_memory_def split: sum.splits if_splits)

lemma evaluate_feed_sizes:
  "evaluate_feed p bi = (Inr fd, bi1) \<Longrightarrow>
     \<exists>n. nd_len (vector_observations bi) = Inr n \<and> fd T_batch_size = Some (FInt (int n))
         \<and> fd T_sequence_length = Some (FInt 1)"
  by (auto simp: evaluate_feed_def Let_def split: sum.splits if_splits)

lemma evaluate_feed_memory:
  "use_recurrent p \<Longrightarrow> evaluate_feed p bi = (Inr fd, bi1) \<Longrightarrow>
     seed_memory p bi = Inr bi1 \<and> fd T_memory_in = Some (FArray (memories bi1))"
  by (auto simp: evaluate_feed_def Let_def split: sum.splits if_splits)

lemma evaluate_feed_frame:
  "snd (evaluate_feed p bi) = bi
   \<or> snd (evaluate_feed p bi) = bi\<lparr>memories := zeros (length (agents bi)) (m_size p)\<rparr>"
  using seed_memory_frame [of p bi]
  by (auto simp: evaluate_feed_def Let_def split: sum.splits if_splits)

lemma evaluate_batch:
  "fst (snd (evaluate E p bi s)) = snd (evaluate_feed p bi)"
  by (simp add: evaluate_def split: prod.splits sum.splits)

lemma evaluate_calls:
  assumes "evaluate_feed p bi = (Inr fd, bi1)" and "fill_eval_dict E fd bi1 = Inr fd1"
  shows "calls (snd (snd (evaluate E p bi s))) = calls s @ [(map snd (inference_dict p), fd1)]"
proof -
  obtain r s1 where e: "execute_model E fd1 (inference_dict p) s = (r, s1)"
    by (cases "execute_model E fd1 (inference_dict p) s")
  then have "s1 = snd (sess_run E (map snd (inference_dict p)) fd1 s)"
    using execute_model_session [of E fd1 "inference_dict p" s] by simp
  then have "calls s1 = calls s @ [(map snd (inference_dict p), fd1)]"
    by (simp add: sess_run_calls)
  then show ?thesis using assms e by (simp add: evaluate_def)
qed

lemma evaluate_calls_cases:
  "calls (snd (snd (evaluate E p bi s))) = calls s
   \<or> (\<exists>fd. calls (snd (snd (evaluate E p bi s))) = calls s @ [(map snd (inference_dict p), fd)])"
proof (cases "evaluate_feed p bi")
  case (Pair r bi1)
  show ?thesis
  proof (cases r)
    case (Inl e)
    with Pair show ?thesis by (simp add: evaluate_def)
  next
    case (Inr fd)
    show ?thesis
    proof (cases "fill_eval_dict E fd bi1")
      case (Inl e)
      with Pair Inr show ?thesis by (simp add: evaluate_def)
    next
      case fill: (Inr fd1)
      from Pair Inr have "evaluate_feed p bi = (Inr fd, bi1)" by simp
      from evaluate_calls [OF this fill] show ?thesis by blast
    qed
  qed
qed

lemma evaluate_success_feed:
  "evaluate E p bi s = (Inr out, bi1, s1) \<Longrightarrow> \<exists>fd. evaluate_feed p bi = (Inr fd, bi1)"
  by (auto simp: evaluate_def split: prod.splits sum.splits)

lemma value_visual_bindings:
  "value_visual m obs idx i fd = Inr fd1 \<Longrightarrow>
     (\<forall>t. (\<forall>j. t \<noteq> T_visual_in j) \<longrightarrow> fd1 t = fd t)
     \<and> (\<forall>k<length obs. \<exists>row. nd_index (obs ! k) idx = Inr row
            \<and> fd1 (T_visual_in (i + k)) = Some (FList [row]))
     \<and> (\<forall>j<i. fd1 (T_visual_in j) = fd (T_visual_in j))"
proof (induction obs arbitrary: i fd)
  case Nil
  then show ?case by simp
next
  case (Cons ob rest)
  from Cons.prems obtain row where
    row: "nd_index ob idx = Inr row" and i: "i < n_visual_in m"
    and rec: "value_visual m rest idx (Suc i) (fd(T_visual_in i \<mapsto> FList [row])) = Inr fd1"
    by (auto split: sum.splits if_splits)
  note ih = Cons.IH [OF rec]
  have a: "\<forall>t. (\<forall>j. t \<noteq> T_visual_in j) \<longrightarrow> fd1 t = fd t"
    using ih by simp
  have c: "\<forall>j<i. fd1 (T_visual_in j) = fd (T_visual_in j)"
    using ih by simp
  have here: "fd1 (T_visual_in i) = Some (FList [row])"
    using ih by simp
  have b: "\<forall>k<length (ob # rest). \<exists>r. nd_index ((ob # rest) ! k) idx = Inr r
            \<and> fd1 (T_visual_in (i + k)) = Some (FList [r])"
  proof (intro allI impI)
    fix k assume k: "k < length (ob # rest)"
    show "\<exists>r. nd_index ((ob # rest) ! k) idx = Inr r
            \<and> fd1 (T_visual_in (i + k)) = Some (FList [r])"
    proof (cases k)
      case 0
      then show ?thesis using row here by simp
    next
      case (Suc k')
      then have "k' < length rest" using k by simp
      with ih obtain r where "nd_index (rest ! k') idx = Inr r"
        "fd1 (T_visual_in (Suc i + k')) = Some (FList [r])" by blast
      then show ?thesis using Suc by simp
    qed
  qed
  show ?case using a b c by blast
qed

lemma value_feed_bindings:
  assumes "value_feed p bi idx = (Inr fd, bi1)"
  shows "fd T_batch_size = Some (FInt 1) \<and> fd T_sequence_length = Some (FInt 1)
     \<and> (\<forall>k<length (visual_observations bi). \<exists>row.
           nd_index (visual_observations bi ! k) idx = Inr row
           \<and> fd (T_visual_in k) = Some (FList [row]))
     \<and> (use_vec_obs p \<longrightarrow> (\<exists>row. nd_index (vector_observations bi) idx = Inr row
           \<and> fd T_vector_in = Some (FList [row])))
     \<and> (use_recurrent p \<longrightarrow> seed_memory p bi = Inr bi1
           \<and> (\<exists>row. nd_index (memories bi1) idx = Inr row
                 \<and> fd T_memory_in = Some (FList [row])))"
proof -
  from assms obtain fd0 where
    v: "value_visual (model p) (visual_observations bi) idx 0
          [T_batch_size \<mapsto> FInt 1, T_sequence_length \<mapsto> FInt 1] = Inr fd0"
    by (auto simp: value_feed_def split: sum.splits)
  note vb = value_visual_bindings [OF v]
  have b0: "fd0 T_batch_size = Some (FInt 1)" "fd0 T_sequence_length = Some (FInt 1)"
    "fd0 T_vector_in = None" "fd0 T_memory_in = None"
    using vb by simp_all
  have vis0: "\<forall>k<length (visual_observations bi). \<exists>row.
           nd_index (visual_observations bi ! k) idx = Inr row
           \<and> fd0 (T_visual_in k) = Some (FList [row])"
    using vb by simp
  from assms v have rest:
    "fd T_batch_size = fd0 T_batch_size \<and> fd T_sequence_length = fd0 T_sequence_length
     \<and> (\<forall>k. fd (T_visual_in k) = fd0 (T_visual_in k))
     \<and> (use_vec_obs p \<longrightarrow> (\<exists>row. nd_index (vector_observations bi) idx = Inr row
           \<and> fd T_vector_in = Some (FList [row])))
     \<and> (use_recurrent p \<longrightarrow> seed_memory p bi = Inr bi1
           \<and> (\<exists>row. nd_index (memories bi1) idx = Inr row
                 \<and> fd T_memory_in = Some (FList [row])))"
    by (auto simp: value_feed_def split: sum.splits if_splits prod.splits)
  show ?thesis using rest b0 vis0 by simp
qed

lemma value_feed_frame:
  "snd (value_feed p bi idx) = bi
   \<or> snd (value_feed p bi idx) = bi\<lparr>memories := zeros (length (agents bi)) (m_size p)\<rparr>"
  using seed_memory_frame [of p bi]
  by (auto simp: value_feed_def split: sum.splits if_splits prod.splits)

lemma get_value_estimates_batch:
  "fst (snd (get_value_estimates E p bi idx s)) = snd (value_feed p bi idx)"
  by (simp add: get_value_estimates_def split: prod.splits sum.splits)

lemma get_value_estimates_calls:
  assumes "value_feed p bi idx = (Inr fd, bi1)"
  shows "calls (snd (snd (get_value_estimates E p bi idx s))) = calls s @ [([T_value], fd)]"
proof -
  obtain r s1 where e: "sess_run E [T_value] fd s = (r, s1)"
    by (cases "sess_run E [T_value] fd s")
  then have "calls s1 = calls s @ [([T_value], fd)]"
    using sess_run_calls [of E "[T_value]" fd s] by simp
  then show ?thesis using assms e by (simp add: get_value_estimates_def)
qed

lemma get_value_estimates_success_feed:
  "get_value_estimates E p bi idx s = (Inr v, bi1, s1) \<Longrightarrow>
     \<exists>fd. value_feed p bi idx = (Inr fd, bi1)"
  by (auto simp: get_value_estimates_def split: prod.splits sum.splits)

lemma nd_index_zeros:
  assumes "nd_index (zeros n m) idx = Inr row"
  shows "row = \<lparr>shape = [m], entries = replicate m 0\<rparr>"
proof -
  define j where "j = (if idx < 0 then idx + int n else idx)"
  from assms have j: "0 \<le> j" "j < int n"
    and row: "row = \<lparr>shape = [m], entries = take m (drop (nat j * m) (replicate (n * m) 0))\<rparr>"
    by (auto simp: nd_index_def zeros_def Let_def j_def split: if_splits)
  have "nat j < n" using j by simp
  then have "m \<le> (n - nat j) * m" by (cases "n - nat j") simp_all
  then have "min m (n * m - nat j * m) = m"
    by (simp add: diff_mult_distrib)
  then show ?thesis using row by simp
qed

lemma nd_index_zeros_row:
  assumes "0 \<le> idx" and "idx < int n"
  shows "nd_index (zeros n m) idx = Inr \<lparr>shape = [m], entries = replicate m 0\<rparr>"
proof -
  have "nd_index (zeros n m) idx \<noteq> Inl IndexError"
    using assms by (simp add: nd_index_def zeros_def)
  then obtain row where "nd_index (zeros n m) idx = Inr row"
    by (auto simp: nd_index_def zeros_def Let_def split: if_splits)
  then show ?thesis using nd_index_zeros by simp
qed

lemma inference_dict_update_mean:
  "T_update_normalization \<in> set (map snd (make_inference_dict base tp is_training load))
     \<longleftrightarrow> is_training \<and> use_vec_obs base \<and> tp_normalize tp \<and> \<not> load"
  "''update_mean'' \<in> set (map fst (make_inference_dict base tp is_training load))
     \<longleftrightarrow> is_training \<and> use_vec_obs base \<and> tp_normalize tp \<and> \<not> load"
  by (auto simp: make_inference_dict_def Let_def)

section \<open>Lemmas: the registry and the reward columns\<close>

lemma dict_set_keys:
  "keys (dict_set k v d) = (if k \<in> set (keys d) then keys d else keys d @ [k])"
  by (induction d) (fastforce simp: keys_def)+

lemma dict_of_keys_distinct_aux:
  "distinct (keys d) \<Longrightarrow> distinct (keys (foldl (\<lambda>d (k, v). dict_set k v d) d kvs))"
  by (induction kvs arbitrary: d) (auto simp: dict_set_keys split: prod.splits)

lemma dict_of_keys_distinct: "distinct (keys (dict_of kvs))"
  using dict_of_keys_distinct_aux [of "[]" kvs] by (simp add: dict_of_def keys_def)

lemma map_of_keys: "map_of d k \<noteq> None \<longleftrightarrow> k \<in> set (keys d)"
  by (simp add: keys_def map_of_eq_None_iff)

lemma register_signals_keys:
  assumes "register_signals tp d = Inr regs"
  shows "keys regs =
           filter (\<lambda>k. k \<in> set (keys d)) [''extrinsic'', ''curiosity'', ''gail'', ''entropy'']"
proof -
  have m: "\<And>k. (k \<in> set (keys d)) = (map_of d k \<noteq> None)"
    by (metis map_of_keys)
  show ?thesis
    using assms unfolding m
    by (auto simp: register_signals_def keys_def Let_def split: option.splits)
qed

lemma register_signals_length:
  assumes "register_signals tp d = Inr regs" and "distinct (keys d)"
  shows "length (keys regs) \<le> length (keys d)"
proof -
  let ?c = "[''extrinsic'', ''curiosity'', ''gail'', ''entropy'']"
  have k: "keys regs = filter (\<lambda>k. k \<in> set (keys d)) ?c"
    by (rule register_signals_keys [OF assms(1)])
  have "distinct ?c" by simp
  then have "distinct (keys regs)" unfolding k by (rule distinct_filter)
  then have "length (keys regs) = card (set (keys regs))" by (simp add: distinct_card)
  also have "\<dots> \<le> card (set (keys d))"
    by (rule card_mono) (auto simp: k)
  also have "\<dots> \<le> length (keys d)" by (rule card_length)
  finally show ?thesis .
qed

lemma init_fields:
  assumes "SACPolicy_init E base tp is_training load s = Inr (p, s1)"
  shows "inference_dict p = make_inference_dict base tp is_training load"
    and "update_dict p = make_update_dict"
    and "stream_names (model p) =
           keys (dict_of (zip (tp_reward_signals tp) (tp_reward_strength tp)))"
    and "n_rewards_holders (model p) = length (stream_names (model p))"
    and "register_signals tp (dict_of (zip (tp_reward_signals tp) (tp_reward_strength tp)))
           = Inr (reward_signals p)"
  using assms
  by (auto simp: SACPolicy_init_def SACModel_def Let_def split: sum.splits prod.splits if_splits)

lemma init_holders_suffice:
  assumes "SACPolicy_init E base tp is_training load s = Inr (p, s1)"
  shows "length (keys (reward_signals p)) \<le> n_rewards_holders (model p)"
  using register_signals_length [OF init_fields(5) [OF assms] dict_of_keys_distinct]
  by (simp add: init_fields(3,4) [OF assms])

lemma bind_rewards_ok:
  "i + length names \<le> n_rewards_holders m \<Longrightarrow>
     (\<exists>fd1. bind_rewards m mb i names fd = Inr fd1)
       \<longleftrightarrow> (\<forall>name\<in>set names. mb (rewards_key name) \<noteq> None)"
  by (induction names arbitrary: i fd) (auto simp: mb_get_def split: option.splits)

lemma bind_rewards_missing:
  "i + length names \<le> n_rewards_holders m \<Longrightarrow>
     \<exists>name\<in>set names. mb (rewards_key name) = None \<Longrightarrow>
     \<exists>k. bind_rewards m mb i names fd = Inl (KeyError k)"
proof (induction names arbitrary: i fd)
  case Nil
  then show ?case by simp
next
  case (Cons a names)
  show ?case
  proof (cases "mb (rewards_key a)")
    case None
    then show ?thesis by (simp add: mb_get_def)
  next
    case (Some col)
    with Cons.prems(2) have miss: "\<exists>name\<in>set names. mb (rewards_key name) = None" by auto
    from Cons.prems(1) have le: "Suc i + length names \<le> n_rewards_holders m" by simp
    from Cons.IH [OF le miss] Some Cons.prems(1) show ?thesis by (simp add: mb_get_def)
  qed
qed

lemma update_reward_bindings_ok:
  assumes "length (keys (reward_signals p)) \<le> n_rewards_holders (model p)"
    and "mb ''masks'' \<noteq> None"
  shows "(\<exists>fd. update_reward_bindings p mb n = Inr fd)
       \<longleftrightarrow> (\<forall>name\<in>set (keys (reward_signals p)). mb (rewards_key name) \<noteq> None)"
proof -
  from assms(2) obtain masks where m: "mb ''masks'' = Some masks" by auto
  have le: "0 + length (keys (reward_signals p)) \<le> n_rewards_holders (model p)"
    using assms(1) by simp
  show ?thesis
    unfolding update_reward_bindings_def mb_get_def m
    using bind_rewards_ok [OF le] by simp
qed

lemma update_reward_bindings_missing:
  assumes "length (keys (reward_signals p)) \<le> n_rewards_holders (model p)"
    and "\<exists>name\<in>set (keys (reward_signals p)). mb (rewards_key name) = None"
  shows "\<exists>k. update_reward_bindings p mb n = Inl (KeyError k)"
proof (cases "mb ''masks''")
  case None
  then show ?thesis by (simp add: update_reward_bindings_def mb_get_def)
next
  case (Some a)
  have le: "0 + length (keys (reward_signals p)) \<le> n_rewards_holders (model p)"
    using assms(1) by simp
  show ?thesis
    unfolding update_reward_bindings_def mb_get_def Some
    using bind_rewards_missing [OF le assms(2)] by simp
qed

lemma update_fails_early:
  "update_reward_bindings p mb n = Inl e \<Longrightarrow> update E p mb n ut s = (Inl e, s)"
  by (simp add: update_def update_feed_def)

section \<open>Lemmas: the visual observations\<close>

lemma collapse_sequence_collapsed:
  assumes "sequence_length p > 1" and "use_recurrent p"
    and "shape a = [B, L, W, H, C]" and "0 < W * H * C"
  shows "collapse_sequence p a = Inr \<lparr>shape = [B * L, W, H, C], entries = entries a\<rparr>"
proof -
  let ?k = "W * H * C"
  have sz: "nd_size a = (B * L) * ?k" by (simp add: nd_size_def assms(3))
  have kn: "prod_list [W, H, C] = ?k" by simp
  have "reshape_unknown_first a [W, H, C] =
          Inr \<lparr>shape = [B * L, W, H, C], entries = entries a\<rparr>"
    unfolding reshape_unknown_first_def Let_def kn sz using assms(4) by simp
  then show ?thesis using assms(1,2,3) by (simp add: collapse_sequence_def)
qed

lemma collapse_sequence_pass:
  "\<not> (sequence_length p > 1 \<and> use_recurrent p) \<Longrightarrow> collapse_sequence p a = Inr a"
  by (auto simp: collapse_sequence_def)

lemma bind_visual_lookup:
  assumes "bind_visual p mb pre slot idxs fd = Inr fd1" and "inj slot" and "distinct idxs"
  shows "(\<forall>i\<in>set idxs. \<exists>a v. mb (pre @ string_of_nat i) = Some a
             \<and> collapse_sequence p a = Inr v \<and> fd1 (slot i) = Some (FArray v))
       \<and> (\<forall>t. t \<notin> slot ` set idxs \<longrightarrow> fd1 t = fd t)"
  using assms
proof (induction idxs arbitrary: fd)
  case Nil
  then show ?case by simp
next
  case (Cons i rest)
  from Cons.prems(1) obtain a v where
    a: "mb (pre @ string_of_nat i) = Some a" and v: "collapse_sequence p a = Inr v"
    and rec: "bind_visual p mb pre slot rest (fd(slot i \<mapsto> FArray v)) = Inr fd1"
    by (auto simp: mb_get_def split: option.splits sum.splits)
  from Cons.prems(3) have d: "distinct rest" and ni: "i \<notin> set rest" by simp_all
  note ih = Cons.IH [OF rec Cons.prems(2) d]
  have "slot i \<notin> slot ` set rest"
    using ni Cons.prems(2) by (auto simp: inj_def)
  with ih have here: "fd1 (slot i) = Some (FArray v)" by simp
  have A: "\<forall>j\<in>set (i # rest). \<exists>a v. mb (pre @ string_of_nat j) = Some a
             \<and> collapse_sequence p a = Inr v \<and> fd1 (slot j) = Some (FArray v)"
    using a v here ih by auto
  have B: "\<forall>t. t \<notin> slot ` set (i # rest) \<longrightarrow> fd1 t = fd t"
    using ih by auto
  show ?case using A B by (rule conjI)
qed

lemma bind_memory_done_other:
  "bind_memory_done p mb fd = Inr fd1 \<Longrightarrow> t \<noteq> T_memory_in \<Longrightarrow> t \<noteq> T_dones_holder \<Longrightarrow>
     fd1 t = fd t"
  by (auto simp: bind_memory_done_def split: sum.splits if_splits)

lemma inj_visual_slots: "inj T_visual_in" "inj T_next_visual_in"
  by (simp_all add: inj_def)

lemma bind_visual_obs_lookup:
  assumes "bind_visual_obs p mb fd = Inr fd1" and "0 < vis_obs_size (model p)"
  shows "(\<forall>i<n_visual_in (model p). \<exists>a v. mb (''visual_obs'' @ string_of_nat i) = Some a
             \<and> collapse_sequence p a = Inr v \<and> fd1 (T_visual_in i) = Some (FArray v))
       \<and> (\<forall>i<n_next_visual_in (model p). \<exists>a v.
             mb (''next_visual_obs'' @ string_of_nat i) = Some a
             \<and> collapse_sequence p a = Inr v \<and> fd1 (T_next_visual_in i) = Some (FArray v))"
proof -
  from assms obtain fd0 where
    one: "bind_visual p mb ''visual_obs'' T_visual_in [0..<n_visual_in (model p)] fd = Inr fd0"
    and two: "bind_visual p mb ''next_visual_obs'' T_next_visual_in
                [0..<n_next_visual_in (model p)] fd0 = Inr fd1"
    by (auto simp: bind_visual_obs_def split: sum.splits)
  note l1 = bind_visual_lookup [OF one inj_visual_slots(1) distinct_upt]
  note l2 = bind_visual_lookup [OF two inj_visual_slots(2) distinct_upt]
  have keep: "fd1 (T_visual_in i) = fd0 (T_visual_in i)" for i
    using l2 by auto
  have A: "\<forall>i<n_visual_in (model p). \<exists>a v. mb (''visual_obs'' @ string_of_nat i) = Some a
             \<and> collapse_sequence p a = Inr v \<and> fd1 (T_visual_in i) = Some (FArray v)"
    using l1 by (simp add: keep)
  have B: "\<forall>i<n_next_visual_in (model p). \<exists>a v.
             mb (''next_visual_obs'' @ string_of_nat i) = Some a
             \<and> collapse_sequence p a = Inr v \<and> fd1 (T_next_visual_in i) = Some (FArray v)"
    using l2 by simp
  show ?thesis using A B by (rule conjI)
qed

lemma update_feed_visual:
  assumes "update_feed p mb n = Inr fd" and "0 < vis_obs_size (model p)"
  shows "(\<forall>i<n_visual_in (model p). \<exists>a v. mb (''visual_obs'' @ string_of_nat i) = Some a
             \<and> collapse_sequence p a = Inr v \<and> fd (T_visual_in i) = Some (FArray v))
       \<and> (\<forall>i<n_next_visual_in (model p). \<exists>a v.
             mb (''next_visual_obs'' @ string_of_nat i) = Some a
             \<and> collapse_sequence p a = Inr v \<and> fd (T_next_visual_in i) = Some (FArray v))"
proof -
  from assms(1) obtain fd2 fd3 where
    vis: "bind_visual_obs p mb fd2 = Inr fd3" and md: "bind_memory_done p mb fd3 = Inr fd"
    by (auto simp: update_feed_def split: sum.splits)
  have k1: "fd (T_visual_in i) = fd3 (T_visual_in i)" for i
    by (rule bind_memory_done_other [OF md]) simp_all
  have k2: "fd (T_next_visual_in i) = fd3 (T_next_visual_in i)" for i
    by (rule bind_memory_done_other [OF md]) simp_all
  show ?thesis
    using bind_visual_obs_lookup [OF vis assms(2)] by (simp add: k1 k2)
qed

lemma bind_visual_total:
  "(\<forall>i\<in>set idxs. \<exists>a v. mb (pre @ string_of_nat i) = Some a \<and> collapse_sequence p a = Inr v)
     \<Longrightarrow> \<forall>fd. \<exists>fd1. bind_visual p mb pre slot idxs fd = Inr fd1"
proof (induction idxs)
  case Nil
  then show ?case by simp
next
  case (Cons i rest)
  from Cons.prems obtain a v where
    a: "mb (pre @ string_of_nat i) = Some a" and v: "collapse_sequence p a = Inr v"
    by auto
  from Cons.prems have
    "\<forall>j\<in>set rest. \<exists>a v. mb (pre @ string_of_nat j) = Some a \<and> collapse_sequence p a = Inr v"
    by simp
  note ih = Cons.IH [OF this]
  show ?case
  proof
    fix fd
    from ih obtain fd1 where
      "bind_visual p mb pre slot rest (fd(slot i \<mapsto> FArray v)) = Inr fd1" by blast
    then have "bind_visual p mb pre slot (i # rest) fd = Inr fd1"
      using a v by (simp add: mb_get_def)
    then show "\<exists>fd1. bind_visual p mb pre slot (i # rest) fd = Inr fd1" by blast
  qed
qed

lemma bind_visual_obs_total:
  assumes "\<forall>i<n_visual_in (model p). \<exists>a v.
             mb (''visual_obs'' @ string_of_nat i) = Some a \<and> collapse_sequence p a = Inr v"
    and "\<forall>i<n_next_visual_in (model p). \<exists>a v.
             mb (''next_visual_obs'' @ string_of_nat i) = Some a \<and> collapse_sequence p a = Inr v"
  shows "\<exists>fd1. bind_visual_obs p mb fd = Inr fd1"
proof (cases "0 < vis_obs_size (model p)")
  case False
  then show ?thesis by (simp add: bind_visual_obs_def)
next
  case True
  have 1: "\<forall>i\<in>set [0..<n_visual_in (model p)]. \<exists>a v.
             mb (''visual_obs'' @ string_of_nat i) = Some a \<and> collapse_sequence p a = Inr v"
    using assms(1) by simp
  have 2: "\<forall>i\<in>set [0..<n_next_visual_in (model p)]. \<exists>a v.
             mb (''next_visual_obs'' @ string_of_nat i) = Some a \<and> collapse_sequence p a = Inr v"
    using assms(2) by simp
  from bind_visual_total [OF 1, of T_visual_in] obtain fd0 where
    one: "bind_visual p mb ''visual_obs'' T_visual_in [0..<n_visual_in (model p)] fd = Inr fd0"
    by blast
  from bind_visual_total [OF 2, of T_next_visual_in] obtain fd1 where
    "bind_visual p mb ''next_visual_obs'' T_next_visual_in
       [0..<n_next_visual_in (model p)] fd0 = Inr fd1"
    by blast
  with one True show ?thesis by (simp add: bind_visual_obs_def)
qed

lemma collapse_sequence_result:
  assumes "sequence_length p > 1" and "use_recurrent p"
    and "shape a = [B, L, W, H, C]" and "collapse_sequence p a = Inr v"
  shows "v = \<lparr>shape = [B * L, W, H, C], entries = entries a\<rparr>"
proof (cases "W * H * C = 0")
  case True
  have kn: "prod_list [W, H, C] = W * H * C" by simp
  have "reshape_unknown_first a [W, H, C] = Inl ValueError"
    unfolding reshape_unknown_first_def Let_def kn True by simp
  with assms show ?thesis by (simp add: collapse_sequence_def)
next
  case False
  then have "0 < W * H * C" by simp
  from collapse_sequence_collapsed [OF assms(1,2,3) this] assms(4) show ?thesis by simp
qed

lemma update_feed_visual_shapes:
  assumes "update_feed p mb n = Inr fd" and "0 < vis_obs_size (model p)"
  shows "(\<forall>i a B L W H C. i < n_visual_in (model p) \<longrightarrow>
            mb (''visual_obs'' @ string_of_nat i) = Some a \<longrightarrow>
            (sequence_length p > 1 \<and> use_recurrent p \<longrightarrow> shape a = [B, L, W, H, C] \<longrightarrow>
               fd (T_visual_in i) = Some (FArray \<lparr>shape = [B * L, W, H, C], entries = entries a\<rparr>))
            \<and> (\<not> (sequence_length p > 1 \<and> use_recurrent p) \<longrightarrow>
                 fd (T_visual_in i) = Some (FArray a)))
       \<and> (\<forall>i a B L W H C. i < n_next_visual_in (model p) \<longrightarrow>
            mb (''next_visual_obs'' @ string_of_nat i) = Some a \<longrightarrow>
            (sequence_length p > 1 \<and> use_recurrent p \<longrightarrow> shape a = [B, L, W, H, C] \<longrightarrow>
               fd (T_next_visual_in i) =
                 Some (FArray \<lparr>shape = [B * L, W, H, C], entries = entries a\<rparr>))
            \<and> (\<not> (sequence_length p > 1 \<and> use_recurrent p) \<longrightarrow>
                 fd (T_next_visual_in i) = Some (FArray a)))"
proof -
  note u = update_feed_visual [OF assms]
  have A: "(sequence_length p > 1 \<and> use_recurrent p \<longrightarrow> shape a = [B, L, W, H, C] \<longrightarrow>
               fd (T_visual_in i) = Some (FArray \<lparr>shape = [B * L, W, H, C], entries = entries a\<rparr>))
            \<and> (\<not> (sequence_length p > 1 \<and> use_recurrent p) \<longrightarrow>
                 fd (T_visual_in i) = Some (FArray a))"
    if i: "i < n_visual_in (model p)" and a: "mb (''visual_obs'' @ string_of_nat i) = Some a"
    for i a B L W H C
  proof -
    from u i a obtain v where v: "collapse_sequence p a = Inr v"
      and f: "fd (T_visual_in i) = Some (FArray v)" by fastforce
    show ?thesis
      using v f collapse_sequence_result [of p a B L W H C v] collapse_sequence_pass [of p a]
      by auto
  qed
  have B: "(sequence_length p > 1 \<and> use_recurrent p \<longrightarrow> shape a = [B, L, W, H, C] \<longrightarrow>
               fd (T_next_visual_in i) =
                 Some (FArray \<lparr>shape = [B * L, W, H, C], entries = entries a\<rparr>))
            \<and> (\<not> (sequence_length p > 1 \<and> use_recurrent p) \<longrightarrow>
                 fd (T_next_visual_in i) = Some (FArray a))"
    if i: "i < n_next_visual_in (model p)"
      and a: "mb (''next_visual_obs'' @ string_of_nat i) = Some a"
    for i a B L W H C
  proof -
    from u i a obtain v where v: "collapse_sequence p a = Inr v"
      and f: "fd (T_next_visual_in i) = Some (FArray v)" by fastforce
    show ?thesis
      using v f collapse_sequence_result [of p a B L W H C v] collapse_sequence_pass [of p a]
      by auto
  qed
  have 1: "\<forall>i a B L W H C. i < n_visual_in (model p) \<longrightarrow>
            mb (''visual_obs'' @ string_of_nat i) = Some a \<longrightarrow>
            (sequence_length p > 1 \<and> use_recurrent p \<longrightarrow> shape a = [B, L, W, H, C] \<longrightarrow>
               fd (T_visual_in i) = Some (FArray \<lparr>shape = [B * L, W, H, C], entries = entries a\<rparr>))
            \<and> (\<not> (sequence_length p > 1 \<and> use_recurrent p) \<longrightarrow>
                 fd (T_visual_in i) = Some (FArray a))"
    by (intro allI impI) (rule A)
  have 2: "\<forall>i a B L W H C. i < n_next_visual_in (model p) \<longrightarrow>
            mb (''next_visual_obs'' @ string_of_nat i) = Some a \<longrightarrow>
            (sequence_length p > 1 \<and> use_recurrent p \<longrightarrow> shape a = [B, L, W, H, C] \<longrightarrow>
               fd (T_next_visual_in i) =
                 Some (FArray \<lparr>shape = [B * L, W, H, C], entries = entries a\<rparr>))
            \<and> (\<not> (sequence_length p > 1 \<and> use_recurrent p) \<longrightarrow>
                 fd (T_next_visual_in i) = Some (FArray a))"
    by (intro allI impI) (rule B)
  show ?thesis using 1 2 by (rule conjI)
qed

section \<open>Lemmas: the reward bindings in the feed dictionary\<close>

lemma bind_rewards_values:
  "bind_rewards m mb i names fd = Inr fd1 \<Longrightarrow>
     (\<forall>k<length names. \<exists>col. mb (rewards_key (names ! k)) = Some col
          \<and> fd1 (T_rewards_holders (i + k)) = Some (FArray (flatten col)))
     \<and> (\<forall>t. t \<notin> T_rewards_holders ` {i..<i + length names} \<longrightarrow> fd1 t = fd t)"
proof (induction names arbitrary: i fd)
  case Nil
  then show ?case by simp
next
  case (Cons a names)
  from Cons.prems obtain col where
    col: "mb (rewards_key a) = Some col" and i: "i < n_rewards_holders m"
    and rec: "bind_rewards m mb (Suc i) names (fd(T_rewards_holders i \<mapsto> FArray (flatten col)))
               = Inr fd1"
    by (auto simp: mb_get_def split: option.splits if_splits)
  note ih = Cons.IH [OF rec]
  have ni: "T_rewards_holders i \<notin> T_rewards_holders ` {Suc i..<Suc i + length names}"
    by auto
  with ih have here: "fd1 (T_rewards_holders i) = Some (FArray (flatten col))" by simp
  have A: "\<forall>k<length (a # names). \<exists>c. mb (rewards_key ((a # names) ! k)) = Some c
          \<and> fd1 (T_rewards_holders (i + k)) = Some (FArray (flatten c))"
  proof (intro allI impI)
    fix k assume k: "k < length (a # names)"
    show "\<exists>c. mb (rewards_key ((a # names) ! k)) = Some c
          \<and> fd1 (T_rewards_holders (i + k)) = Some (FArray (flatten c))"
    proof (cases k)
      case 0
      then show ?thesis using col here by simp
    next
      case (Suc k1)
      then have "k1 < length names" using k by simp
      with ih obtain c where "mb (rewards_key (names ! k1)) = Some c"
        "fd1 (T_rewards_holders (Suc i + k1)) = Some (FArray (flatten c))" by blast
      then show ?thesis using Suc by simp
    qed
  qed
  have B: "\<forall>t. t \<notin> T_rewards_holders ` {i..<i + length (a # names)} \<longrightarrow> fd1 t = fd t"
  proof (intro allI impI)
    fix t assume t: "t \<notin> T_rewards_holders ` {i..<i + length (a # names)}"
    then have "t \<notin> T_rewards_holders ` {Suc i..<Suc i + length names}" by auto
    moreover from t have "t \<noteq> T_rewards_holders i" by auto
    ultimately show "fd1 t = fd t" using ih by simp
  qed
  show ?case using A B by (rule conjI)
qed

lemma update_reward_bindings_values:
  assumes "update_reward_bindings p mb n = Inr fd"
  shows "(\<forall>k<length (keys (reward_signals p)). \<exists>col.
            mb (rewards_key (keys (reward_signals p) ! k)) = Some col
            \<and> fd (T_rewards_holders k) = Some (FArray (flatten col)))
       \<and> fd T_batch_size = Some (FInt n)
       \<and> fd T_sequence_length = Some (FInt (sequence_length p))
       \<and> (\<exists>masks. mb ''masks'' = Some masks \<and> fd T_mask_input = Some (FArray (flatten masks)))"
proof -
  from assms obtain masks where m: "mb ''masks'' = Some masks"
    and b: "bind_rewards (model p) mb 0 (keys (reward_signals p))
            [T_batch_size \<mapsto> FInt n, T_sequence_length \<mapsto> FInt (sequence_length p),
             T_mask_input \<mapsto> FArray (flatten masks)] = Inr fd"
    by (auto simp: update_reward_bindings_def mb_get_def split: option.splits)
  note v = bind_rewards_values [OF b]
  have o: "t \<notin> T_rewards_holders ` {0..<0 + length (keys (reward_signals p))}"
    if "t = T_batch_size \<or> t = T_sequence_length \<or> t = T_mask_input" for t
    using that by auto
  have A: "\<forall>k<length (keys (reward_signals p)). \<exists>col.
            mb (rewards_key (keys (reward_signals p) ! k)) = Some col
            \<and> fd (T_rewards_holders k) = Some (FArray (flatten col))"
    using v by simp
  have B: "fd T_batch_size = Some (FInt n)"
    using v o [of T_batch_size] by simp
  have C: "fd T_sequence_length = Some (FInt (sequence_length p))"
    using v o [of T_sequence_length] by simp
  have D: "\<exists>masks. mb ''masks'' = Some masks \<and> fd T_mask_input = Some (FArray (flatten masks))"
    using v o [of T_mask_input] m by simp
  show ?thesis by (intro conjI A B C D)
qed

lemma bind_reshaped_other:
  "bind_reshaped mb k dims t fd = Inr fd1 \<Longrightarrow> u \<noteq> t \<Longrightarrow> fd1 u = fd u"
  by (auto simp: bind_reshaped_def split: sum.splits)

lemma bind_actions_rewards:
  "bind_actions p mb fd = Inr fd1 \<Longrightarrow> fd1 (T_rewards_holders k) = fd (T_rewards_holders k)"
  by (auto simp: bind_actions_def split: sum.splits if_splits list.splits
      dest!: bind_reshaped_other [where u = "T_rewards_holders k"])

lemma bind_vector_obs_rewards:
  "bind_vector_obs p mb fd = Inr fd1 \<Longrightarrow> fd1 (T_rewards_holders k) = fd (T_rewards_holders k)"
  by (auto simp: bind_vector_obs_def split: sum.splits if_splits
      dest!: bind_reshaped_other [where u = "T_rewards_holders k"])

lemma bind_visual_obs_rewards:
  assumes "bind_visual_obs p mb fd = Inr fd1"
  shows "fd1 (T_rewards_holders k) = fd (T_rewards_holders k)"
proof (cases "0 < vis_obs_size (model p)")
  case False
  with assms show ?thesis by (simp add: bind_visual_obs_def)
next
  case True
  with assms obtain fd0 where
    one: "bind_visual p mb ''visual_obs'' T_visual_in [0..<n_visual_in (model p)] fd = Inr fd0"
    and two: "bind_visual p mb ''next_visual_obs'' T_next_visual_in
                [0..<n_next_visual_in (model p)] fd0 = Inr fd1"
    by (auto simp: bind_visual_obs_def split: sum.splits)
  note l1 = bind_visual_lookup [OF one inj_visual_slots(1) distinct_upt]
  note l2 = bind_visual_lookup [OF two inj_visual_slots(2) distinct_upt]
  have "fd0 (T_rewards_holders k) = fd (T_rewards_holders k)" using l1 by auto
  moreover have "fd1 (T_rewards_holders k) = fd0 (T_rewards_holders k)" using l2 by auto
  ultimately show ?thesis by simp
qed

lemma update_feed_rewards:
  assumes "update_feed p mb n = Inr fd"
  shows "\<exists>fd0. update_reward_bindings p mb n = Inr fd0
           \<and> (\<forall>k. fd (T_rewards_holders k) = fd0 (T_rewards_holders k))"
proof -
  from assms obtain fd0 fd1 fd2 fd3 where
    r: "update_reward_bindings p mb n = Inr fd0"
    and a: "bind_actions p mb fd0 = Inr fd1"
    and v: "bind_vector_obs p mb fd1 = Inr fd2"
    and w: "bind_visual_obs p mb fd2 = Inr fd3"
    and d: "bind_memory_done p mb fd3 = Inr fd"
    by (auto simp: update_feed_def split: sum.splits)
  have "fd (T_rewards_holders k) = fd0 (T_rewards_holders k)" for k
    using bind_actions_rewards [OF a, of k] bind_vector_obs_rewards [OF v, of k]
      bind_visual_obs_rewards [OF w, of k]
      bind_memory_done_other [OF d, of "T_rewards_holders k"]
    by simp
  with r show ?thesis by blast
qed

lemma update_success_side:
  assumes "update_feed p mb n = Inr fd"
  shows "update E p mb n False s = execute_model E fd (update_dict p) s"
    and "\<exists>rest. calls (snd (update E p mb n ut s)) =
           calls s @ (map snd (update_dict p), fd) # rest"
proof -
  obtain r s1 where e: "execute_model E fd (update_dict p) s = (r, s1)"
    by (cases "execute_model E fd (update_dict p) s")
  have c1: "calls s1 = calls s @ [(map snd (update_dict p), fd)]"
    using execute_model_session [of E fd "update_dict p" s] e
    by (simp add: sess_run_calls)
  show "update E p mb n False s = execute_model E fd (update_dict p) s"
    using assms e by (cases r) (simp_all add: update_def)
  show "\<exists>rest. calls (snd (update E p mb n ut s)) =
           calls s @ (map snd (update_dict p), fd) # rest"
  proof (cases r)
    case (Inl err)
    then show ?thesis using assms e c1 by (simp add: update_def)
  next
    case (Inr out)
    show ?thesis
    proof (cases ut)
      case False
      then show ?thesis using assms e c1 Inr by (simp add: update_def)
    next
      case True
      obtain r2 s2 where t: "sess_run E [T_target_update_op] Map.empty s1 = (r2, s2)"
        by (cases "sess_run E [T_target_update_op] Map.empty s1")
      then have "calls s2 = calls s1 @ [([T_target_update_op], Map.empty)]"
        using sess_run_calls [of E "[T_target_update_op]" Map.empty s1] by simp
      then show ?thesis using assms e c1 Inr True t
        by (cases r2) (simp_all add: update_def)
    qed
  qed
qed

section \<open>The example inputs, evaluated\<close>

lemmas ex_defs = probe_env_def ex_session_def ex_base_def ex_params_def ex_policy_def
  ex_batch_def ex_mini_batch_def SACModel_def make_inference_dict_def make_update_dict_def

lemmas update_feed_defs = update_feed_def update_reward_bindings_def bind_actions_def
  bind_vector_obs_def bind_visual_obs_def bind_memory_done_def bind_reshaped_def mb_get_def
  rewards_key_def keys_def collapse_sequence_def reshape_unknown_first_def flatten_def
  nd_size_def first_timestep_def

lemma ex_init:
  "SACPolicy_init probe_env ex_base (ex_params [''extrinsic'', ''curiosity'']) True False
     ex_session =
   Inr (ex_policy, \<lparr>params = 1, last_reward_var = 5,
                    calls = [([T_target_init_op], Map.empty)]\<rparr>)"
  by (simp add: SACPolicy_init_def register_signals_def dict_of_def keys_def sess_run_def
      ex_defs)

lemma ex_init_swapped:
  "SACPolicy_init probe_env ex_base (ex_params [''curiosity'', ''extrinsic'']) True False
     ex_session =
   Inr (ex_policy\<lparr>model := SACModel (brain ex_base) [''curiosity'', ''extrinsic'']\<rparr>,
        \<lparr>params = 1, last_reward_var = 5, calls = [([T_target_init_op], Map.empty)]\<rparr>)"
  by (simp add: SACPolicy_init_def register_signals_def dict_of_def keys_def sess_run_def
      ex_defs)

lemma ex_init_no_vec:
  "\<exists>p s1. SACPolicy_init probe_env (ex_base\<lparr>use_vec_obs := False\<rparr>) (ex_params [''extrinsic''])
             True False ex_session = Inr (p, s1)"
  by (simp add: SACPolicy_init_def register_signals_def dict_of_def keys_def sess_run_def
      ex_defs)

lemma ex_registry: "keys (reward_signals ex_policy) = [''extrinsic'', ''curiosity'']"
  by (simp add: ex_policy_def keys_def)

lemma ex_consistent: "consistent_batch ex_batch"
  by (simp add: consistent_batch_def nd_len_def ex_batch_def)

lemma ex_batch_sizes:
  "length (agents ex_batch) = 2" "m_size ex_policy = 3" "use_recurrent ex_policy"
  "use_vec_obs ex_policy" "shape_at1 (memories ex_batch) = Inr 0"
  by (simp_all add: ex_batch_def ex_policy_def shape_at1_def)

lemma ex_evaluate_feed:
  "evaluate_feed ex_policy ex_batch =
     (Inr [T_batch_size \<mapsto> FInt 2, T_sequence_length \<mapsto> FInt 1,
           T_memory_in \<mapsto> FArray (zeros 2 3)],
      ex_batch\<lparr>memories := zeros 2 3\<rparr>)"
  by (simp add: evaluate_feed_def nd_len_def seed_memory_def shape_at1_def
      make_empty_memory_def ex_defs numeral_2_eq_2 [symmetric])

lemma ex_evaluate:
  "evaluate probe_env ex_policy ex_batch ex_session =
     (Inr (map (\<lambda>k. (k, \<lparr>shape = [], entries = [1]\<rparr>))
            [''action'', ''log_probs'', ''value'', ''entropy'', ''learning_rate'',
             ''memory_out'', ''update_mean'']),
      ex_batch\<lparr>memories := zeros 2 3\<rparr>,
      \<lparr>params = 1, last_reward_var = 5,
       calls = [([T_output, T_all_log_probs, T_value, T_entropy, T_learning_rate,
                  T_memory_out, T_update_normalization],
                 [T_batch_size \<mapsto> FInt 2, T_sequence_length \<mapsto> FInt 1,
                  T_memory_in \<mapsto> FArray (zeros 2 3),
                  T_vector_in \<mapsto> FArray \<lparr>shape = [2, 2], entries = [1, 2, 3, 4]\<rparr>])]\<rparr>)"
  by (simp add: evaluate_def evaluate_feed_def nd_len_def seed_memory_def shape_at1_def
      make_empty_memory_def execute_model_def sess_run_def ex_defs numeral_2_eq_2 [symmetric])

lemma ex_value_feed:
  "value_feed ex_policy ex_batch 0 =
     (Inr [T_batch_size \<mapsto> FInt 1, T_sequence_length \<mapsto> FInt 1,
           T_visual_in 0 \<mapsto> FList [\<lparr>shape = [1, 1, 1], entries = [5]\<rparr>],
           T_vector_in \<mapsto> FList [\<lparr>shape = [2], entries = [1, 2]\<rparr>],
           T_memory_in \<mapsto> FList [\<lparr>shape = [3], entries = replicate 3 0\<rparr>]],
      ex_batch\<lparr>memories := zeros 2 3\<rparr>)"
proof -
  have v: "nd_index \<lparr>shape = [2, 1, 1, 1], entries = [5, 6]\<rparr> 0
             = Inr \<lparr>shape = [1, 1, 1], entries = [5]\<rparr>"
    by (simp add: nd_index_def)
  have w: "nd_index \<lparr>shape = [2, 2], entries = [1, 2, 3, 4]\<rparr> 0
             = Inr \<lparr>shape = [2], entries = [1, 2]\<rparr>"
    by (simp add: nd_index_def)
  have m: "nd_index (zeros 2 3) 0 = Inr \<lparr>shape = [3], entries = replicate 3 0\<rparr>"
    by (simp add: nd_index_zeros_row)
  have s: "seed_memory ex_policy ex_batch = Inr (ex_batch\<lparr>memories := zeros 2 3\<rparr>)"
    by (simp add: seed_memory_def shape_at1_def make_empty_memory_def ex_policy_def
        ex_batch_def numeral_2_eq_2 [symmetric])
  have u: "use_vec_obs ex_policy" "use_recurrent ex_policy" "use_continuous_act ex_policy"
    "n_visual_in (model ex_policy) = 1"
    by (simp_all add: ex_policy_def SACModel_def ex_base_def)
  have b: "visual_observations ex_batch = [\<lparr>shape = [2, 1, 1, 1], entries = [5, 6]\<rparr>]"
    "vector_observations ex_batch = \<lparr>shape = [2, 2], entries = [1, 2, 3, 4]\<rparr>"
    by (simp_all add: ex_batch_def)
  show ?thesis
    using v w m s u b by (simp add: value_feed_def)
qed

lemma ex_get_value_estimates:
  "\<exists>v s1. get_value_estimates probe_env ex_policy ex_batch 0 ex_session =
         (Inr v, ex_batch\<lparr>memories := zeros 2 3\<rparr>, s1)"
  using ex_value_feed
  by (simp add: get_value_estimates_def sess_run_def probe_env_def)

lemma ex_update_feed:
  "update_feed ex_policy (ex_mini_batch \<lparr>shape = [1, 2, 1, 1, 1], entries = [7, 8]\<rparr>) 1 =
     Inr [T_batch_size \<mapsto> FInt 1, T_sequence_length \<mapsto> FInt 2,
          T_mask_input \<mapsto> FArray \<lparr>shape = [2], entries = [1, 1]\<rparr>,
          T_rewards_holders 0 \<mapsto> FArray \<lparr>shape = [2], entries = [10, 11]\<rparr>,
          T_rewards_holders 1 \<mapsto> FArray \<lparr>shape = [2], entries = [20, 21]\<rparr>,
          T_action_holder \<mapsto> FArray \<lparr>shape = [2, 2], entries = [1, 2, 3, 4]\<rparr>,
          T_vector_in \<mapsto> FArray \<lparr>shape = [2, 2], entries = [1, 2, 3, 4]\<rparr>,
          T_next_vector_in \<mapsto> FArray \<lparr>shape = [2, 2], entries = [3, 4, 5, 6]\<rparr>,
          T_visual_in 0 \<mapsto> FArray \<lparr>shape = [2, 1, 1, 1], entries = [7, 8]\<rparr>,
          T_next_visual_in 0 \<mapsto> FArray \<lparr>shape = [2, 1, 1, 1], entries = [7, 8]\<rparr>,
          T_memory_in \<mapsto> FArray \<lparr>shape = [1, 3], entries = [0, 0, 0]\<rparr>,
          T_dones_holder \<mapsto> FArray \<lparr>shape = [2], entries = [0, 1]\<rparr>]"
  by (simp add: update_feed_defs ex_defs string_of_nat.simps)

lemma ex_update_feed_swapped:
  "\<exists>fd. update_feed (ex_policy\<lparr>model := SACModel (brain ex_base) [''curiosity'', ''extrinsic'']\<rparr>)
          (ex_mini_batch \<lparr>shape = [1, 2, 1, 1, 1], entries = [7, 8]\<rparr>) 1 = Inr fd
     \<and> fd (T_rewards_holders 0) = Some (FArray \<lparr>shape = [2], entries = [10, 11]\<rparr>)
     \<and> fd (T_rewards_holders 1) = Some (FArray \<lparr>shape = [2], entries = [20, 21]\<rparr>)"
  by (simp add: update_feed_defs ex_defs string_of_nat.simps)

section \<open>The order of the reward slots: claim C1\<close>

text \<open>
  Claim C1 says that \<^verbatim>\<open>update\<close> binds the column of each registered signal to the slot
  that the name got when the model made its reward slots from the configured list of
  names. The constructor gives the model the names in the order of the configuration
  (line 47), but fills the registry in the fixed order extrinsic, curiosity, gail,
  entropy (lines 54 to 78), and \<^verbatim>\<open>update\<close> counts along the registry (line 171). For the
  configuration \<^verbatim>\<open>curiosity, extrinsic\<close> the model's slot 0 is the slot of curiosity, and
  \<^verbatim>\<open>update\<close> binds the extrinsic column to it and the curiosity column to slot 1.
\<close>

theorem reward_slot_order_mismatch:
  "\<exists>p s1 fd.
      SACPolicy_init probe_env ex_base (ex_params [''curiosity'', ''extrinsic'']) True False
        ex_session = Inr (p, s1)
      \<and> stream_names (model p) = [''curiosity'', ''extrinsic'']
      \<and> keys (reward_signals p) = [''extrinsic'', ''curiosity'']
      \<and> ex_mini_batch \<lparr>shape = [1, 2, 1, 1, 1], entries = [7, 8]\<rparr> ''extrinsic_rewards''
          = Some \<lparr>shape = [1, 2], entries = [10, 11]\<rparr>
      \<and> ex_mini_batch \<lparr>shape = [1, 2, 1, 1, 1], entries = [7, 8]\<rparr> ''curiosity_rewards''
          = Some \<lparr>shape = [1, 2], entries = [20, 21]\<rparr>
      \<and> update_feed p (ex_mini_batch \<lparr>shape = [1, 2, 1, 1, 1], entries = [7, 8]\<rparr>) 1 = Inr fd
      \<and> fd (T_rewards_holders 0) = Some (FArray \<lparr>shape = [2], entries = [10, 11]\<rparr>)
      \<and> fd (T_rewards_holders 1) = Some (FArray \<lparr>shape = [2], entries = [20, 21]\<rparr>)"
proof -
  let ?p = "ex_policy\<lparr>model := SACModel (brain ex_base) [''curiosity'', ''extrinsic'']\<rparr>"
  from ex_update_feed_swapped obtain fd where
    f: "update_feed ?p (ex_mini_batch \<lparr>shape = [1, 2, 1, 1, 1], entries = [7, 8]\<rparr>) 1 = Inr fd"
    and f0: "fd (T_rewards_holders 0) = Some (FArray \<lparr>shape = [2], entries = [10, 11]\<rparr>)"
    and f1: "fd (T_rewards_holders 1) = Some (FArray \<lparr>shape = [2], entries = [20, 21]\<rparr>)"
    by blast
  have n: "stream_names (model ?p) = [''curiosity'', ''extrinsic'']"
    by (simp add: SACModel_def)
  have k: "keys (reward_signals ?p) = [''extrinsic'', ''curiosity'']"
    by (simp add: ex_policy_def keys_def)
  have c1: "ex_mini_batch \<lparr>shape = [1, 2, 1, 1, 1], entries = [7, 8]\<rparr> ''extrinsic_rewards''
          = Some \<lparr>shape = [1, 2], entries = [10, 11]\<rparr>"
    by (simp add: ex_mini_batch_def)
  have c2: "ex_mini_batch \<lparr>shape = [1, 2, 1, 1, 1], entries = [7, 8]\<rparr> ''curiosity_rewards''
          = Some \<lparr>shape = [1, 2], entries = [20, 21]\<rparr>"
    by (simp add: ex_mini_batch_def)
  show ?thesis
    by (rule exI [of _ ?p],
        rule exI [of _ "\<lparr>params = 1, last_reward_var = 5,
                        calls = [([T_target_init_op], Map.empty)]\<rparr>"],
        rule exI [of _ fd])
       (intro conjI ex_init_swapped n k c1 c2 f f0 f1)
qed

section \<open>Reward columns in update: claim C2\<close>

text \<open>
  Claim C2. For the registry of every policy that the constructor builds: the loop of
  \<^verbatim>\<open>update\<close> that binds the reward columns succeeds, from whatever feed dictionary it
  starts, exactly when the minibatch has the column \<^verbatim>\<open>name_rewards\<close> for every registered
  name; so \<^verbatim>\<open>update\<close>, which reads the mask column before, gets through the binding of the
  reward columns exactly then when the mask column is there. What the loop has built is,
  for every position of the registry, the flattened column of the name at that position
  under the reward slot of that position, every other binding being as before; the feed
  dictionary that \<^verbatim>\<open>update\<close> completes holds these reward bindings, and \<^verbatim>\<open>update\<close> runs its
  main pass on that dictionary. When one of the columns is missing, the call fails at
  once with a \<^verbatim>\<open>KeyError\<close>, and the session is as it was: nothing has been executed. A
  column more, under whatever key, takes nothing away from that: extra columns are
  tolerated.
\<close>

theorem update_reward_columns:
  assumes "SACPolicy_init E0 base tp is_training load s0 = Inr (p, s1)"
  shows "(mb ''masks'' \<noteq> None \<longrightarrow>
            ((\<exists>fd. update_reward_bindings p mb n = Inr fd)
              \<longleftrightarrow> (\<forall>name\<in>set (keys (reward_signals p)). mb (rewards_key name) \<noteq> None)))
       \<and> ((\<exists>name\<in>set (keys (reward_signals p)). mb (rewards_key name) = None) \<longrightarrow>
            (\<exists>k. update E p mb n ut s = (Inl (KeyError k), s)))
       \<and> (mb ''masks'' \<noteq> None \<longrightarrow>
            (\<forall>name\<in>set (keys (reward_signals p)). mb (rewards_key name) \<noteq> None) \<longrightarrow>
            (\<forall>k v. \<exists>fd. update_reward_bindings p (mb(k \<mapsto> v)) n = Inr fd))
       \<and> (\<forall>fd. (\<exists>fd1. bind_rewards (model p) mb 0 (keys (reward_signals p)) fd = Inr fd1)
              \<longleftrightarrow> (\<forall>name\<in>set (keys (reward_signals p)). mb (rewards_key name) \<noteq> None))
       \<and> (\<forall>fd fd1. bind_rewards (model p) mb 0 (keys (reward_signals p)) fd = Inr fd1 \<longrightarrow>
             (\<forall>k<length (keys (reward_signals p)). \<exists>col.
                 mb (rewards_key (keys (reward_signals p) ! k)) = Some col
                 \<and> fd1 (T_rewards_holders k) = Some (FArray (flatten col)))
             \<and> (\<forall>t. t \<notin> T_rewards_holders ` {0..<length (keys (reward_signals p))} \<longrightarrow>
                    fd1 t = fd t))
       \<and> (\<forall>fd0. update_reward_bindings p mb n = Inr fd0 \<longrightarrow>
             (\<forall>k<length (keys (reward_signals p)). \<exists>col.
                 mb (rewards_key (keys (reward_signals p) ! k)) = Some col
                 \<and> fd0 (T_rewards_holders k) = Some (FArray (flatten col)))
             \<and> fd0 T_batch_size = Some (FInt n)
             \<and> fd0 T_sequence_length = Some (FInt (sequence_length p))
             \<and> (\<exists>masks. mb ''masks'' = Some masks
                    \<and> fd0 T_mask_input = Some (FArray (flatten masks))))
       \<and> (\<forall>fd. update_feed p mb n = Inr fd \<longrightarrow>
             (\<forall>k<length (keys (reward_signals p)). \<exists>col.
                 mb (rewards_key (keys (reward_signals p) ! k)) = Some col
                 \<and> fd (T_rewards_holders k) = Some (FArray (flatten col)))
             \<and> update E p mb n False s = execute_model E fd (update_dict p) s
             \<and> (\<exists>rest. calls (snd (update E p mb n ut s)) =
                          calls s @ (map snd (update_dict p), fd) # rest))"
  (is "?A \<and> ?B \<and> ?C \<and> ?D \<and> ?L \<and> ?V \<and> ?U")
proof -
  note le = init_holders_suffice [OF assms]
  have le0: "0 + length (keys (reward_signals p)) \<le> n_rewards_holders (model p)"
    using le by simp
  have D: ?D
    by (intro allI) (rule bind_rewards_ok [OF le0])
  have A: ?A
    by (intro impI) (rule update_reward_bindings_ok [OF le])
  have B: ?B
  proof
    assume "\<exists>name\<in>set (keys (reward_signals p)). mb (rewards_key name) = None"
    from update_reward_bindings_missing [OF le this, of n] obtain k where
      "update_reward_bindings p mb n = Inl (KeyError k)" ..
    from update_fails_early [OF this] show "\<exists>k. update E p mb n ut s = (Inl (KeyError k), s)"
      by blast
  qed
  have C: ?C
  proof (intro impI allI)
    fix k v
    assume m: "mb ''masks'' \<noteq> None"
      and all: "\<forall>name\<in>set (keys (reward_signals p)). mb (rewards_key name) \<noteq> None"
    have m1: "(mb(k \<mapsto> v)) ''masks'' \<noteq> None" using m by simp
    have all1: "\<forall>name\<in>set (keys (reward_signals p)). (mb(k \<mapsto> v)) (rewards_key name) \<noteq> None"
      using all by simp
    show "\<exists>fd. update_reward_bindings p (mb(k \<mapsto> v)) n = Inr fd"
      using update_reward_bindings_ok [where mb = "mb(k \<mapsto> v)" and n = n, OF le m1] all1
      by simp
  qed
  have L: ?L
  proof (intro allI impI)
    fix fd fd1
    assume "bind_rewards (model p) mb 0 (keys (reward_signals p)) fd = Inr fd1"
    from bind_rewards_values [OF this]
    show "(\<forall>k<length (keys (reward_signals p)). \<exists>col.
                 mb (rewards_key (keys (reward_signals p) ! k)) = Some col
                 \<and> fd1 (T_rewards_holders k) = Some (FArray (flatten col)))
             \<and> (\<forall>t. t \<notin> T_rewards_holders ` {0..<length (keys (reward_signals p))} \<longrightarrow>
                    fd1 t = fd t)"
      by simp
  qed
  have V: ?V
    by (intro allI impI) (rule update_reward_bindings_values)
  have U: ?U
  proof (intro allI impI)
    fix fd
    assume f: "update_feed p mb n = Inr fd"
    from update_feed_rewards [OF f] obtain fd0 where
      r: "update_reward_bindings p mb n = Inr fd0"
      and same: "\<forall>k. fd (T_rewards_holders k) = fd0 (T_rewards_holders k)" by blast
    have 1: "\<forall>k<length (keys (reward_signals p)). \<exists>col.
                 mb (rewards_key (keys (reward_signals p) ! k)) = Some col
                 \<and> fd (T_rewards_holders k) = Some (FArray (flatten col))"
      using update_reward_bindings_values [OF r] same by simp
    show "(\<forall>k<length (keys (reward_signals p)). \<exists>col.
                 mb (rewards_key (keys (reward_signals p) ! k)) = Some col
                 \<and> fd (T_rewards_holders k) = Some (FArray (flatten col)))
             \<and> update E p mb n False s = execute_model E fd (update_dict p) s
             \<and> (\<exists>rest. calls (snd (update E p mb n ut s)) =
                          calls s @ (map snd (update_dict p), fd) # rest)"
      by (intro conjI 1 update_success_side [OF f])
  qed
  show ?thesis by (intro conjI A B C D L V U)
qed

theorem update_reward_columns_witness:
  "(\<exists>s1. SACPolicy_init probe_env ex_base (ex_params [''extrinsic'', ''curiosity'']) True False
            ex_session = Inr (ex_policy, s1))
   \<and> (\<exists>fd. update_reward_bindings ex_policy
              (ex_mini_batch \<lparr>shape = [1, 2, 1, 1, 1], entries = [7, 8]\<rparr>) 1 = Inr fd)
   \<and> (\<exists>fd. update_reward_bindings ex_policy
              ((ex_mini_batch \<lparr>shape = [1, 2, 1, 1, 1], entries = [7, 8]\<rparr>)
                 (''gail_rewards'' \<mapsto> \<lparr>shape = [1, 2], entries = [30, 31]\<rparr>)) 1 = Inr fd)
   \<and> (\<exists>k. update probe_env ex_policy
              ((ex_mini_batch \<lparr>shape = [1, 2, 1, 1, 1], entries = [7, 8]\<rparr>)
                 (''curiosity_rewards'' := None)) 1 True ex_session = (Inl (KeyError k), ex_session))
   \<and> (\<exists>fd. update_feed ex_policy
              (ex_mini_batch \<lparr>shape = [1, 2, 1, 1, 1], entries = [7, 8]\<rparr>) 1 = Inr fd
         \<and> fd (T_rewards_holders 0) = Some (FArray \<lparr>shape = [2], entries = [10, 11]\<rparr>)
         \<and> fd (T_rewards_holders 1) = Some (FArray \<lparr>shape = [2], entries = [20, 21]\<rparr>)
         \<and> update probe_env ex_policy
              (ex_mini_batch \<lparr>shape = [1, 2, 1, 1, 1], entries = [7, 8]\<rparr>) 1 False ex_session
             = execute_model probe_env fd (update_dict ex_policy) ex_session)
   \<and> (\<exists>out s1. update probe_env ex_policy
              (ex_mini_batch \<lparr>shape = [1, 2, 1, 1, 1], entries = [7, 8]\<rparr>) 1 False ex_session
             = (Inr out, s1))"
proof -
  let ?mb = "ex_mini_batch \<lparr>shape = [1, 2, 1, 1, 1], entries = [7, 8]\<rparr>"
  note t = update_reward_columns [OF ex_init]
  have m: "?mb ''masks'' \<noteq> None" by (simp add: ex_mini_batch_def)
  have all: "\<forall>name\<in>set (keys (reward_signals ex_policy)). ?mb (rewards_key name) \<noteq> None"
    by (simp add: ex_registry rewards_key_def ex_mini_batch_def)
  have I: "\<exists>s1. SACPolicy_init probe_env ex_base (ex_params [''extrinsic'', ''curiosity''])
            True False ex_session = Inr (ex_policy, s1)"
    using ex_init by simp
  have A: "\<exists>fd. update_reward_bindings ex_policy ?mb 1 = Inr fd"
    using t [where mb = ?mb and n = 1, THEN conjunct1, THEN mp, OF m] all by simp
  have B: "\<exists>fd. update_reward_bindings ex_policy
              (?mb(''gail_rewards'' \<mapsto> \<lparr>shape = [1, 2], entries = [30, 31]\<rparr>)) 1 = Inr fd"
    by (rule t [where mb = ?mb and n = 1, THEN conjunct2, THEN conjunct2, THEN conjunct1,
          THEN mp, OF m, THEN mp, OF all, THEN spec, THEN spec])
  have miss: "\<exists>name\<in>set (keys (reward_signals ex_policy)).
                (?mb(''curiosity_rewards'' := None)) (rewards_key name) = None"
    by (simp add: ex_registry rewards_key_def)
  have C: "\<exists>k. update probe_env ex_policy (?mb(''curiosity_rewards'' := None)) 1 True ex_session
             = (Inl (KeyError k), ex_session)"
    by (rule t [where mb = "?mb(''curiosity_rewards'' := None)" and n = 1 and E = probe_env
           and ut = True and s = ex_session,
          THEN conjunct2, THEN conjunct1, THEN mp, OF miss])
  obtain fd where f: "update_feed ex_policy ?mb 1 = Inr fd"
    using ex_update_feed by blast
  note u = t [where mb = ?mb and n = 1 and E = probe_env and ut = False and s = ex_session,
      THEN conjunct2, THEN conjunct2, THEN conjunct2, THEN conjunct2, THEN conjunct2,
      THEN conjunct2, THEN spec, THEN mp, OF f]
  have len: "length (keys (reward_signals ex_policy)) = 2" by (simp add: ex_registry)
  have k0: "(0::nat) < length (keys (reward_signals ex_policy))"
    and k1: "(1::nat) < length (keys (reward_signals ex_policy))"
    by (simp_all add: len)
  have v0: "fd (T_rewards_holders 0) = Some (FArray \<lparr>shape = [2], entries = [10, 11]\<rparr>)"
    using u [THEN conjunct1, THEN spec, THEN mp, OF k0]
    by (auto simp: ex_registry rewards_key_def ex_mini_batch_def flatten_def nd_size_def)
  have v1: "fd (T_rewards_holders 1) = Some (FArray \<lparr>shape = [2], entries = [20, 21]\<rparr>)"
    using u [THEN conjunct1, THEN spec, THEN mp, OF k1]
    by (auto simp: ex_registry rewards_key_def ex_mini_batch_def flatten_def nd_size_def)
  note e = u [THEN conjunct2, THEN conjunct1]
  have D: "\<exists>fd. update_feed ex_policy ?mb 1 = Inr fd
         \<and> fd (T_rewards_holders 0) = Some (FArray \<lparr>shape = [2], entries = [10, 11]\<rparr>)
         \<and> fd (T_rewards_holders 1) = Some (FArray \<lparr>shape = [2], entries = [20, 21]\<rparr>)
         \<and> update probe_env ex_policy ?mb 1 False ex_session
             = execute_model probe_env fd (update_dict ex_policy) ex_session"
    by (rule exI [of _ fd]) (intro conjI f v0 v1 e)
  have F: "\<exists>out s1. update probe_env ex_policy ?mb 1 False ex_session = (Inr out, s1)"
    unfolding e by (simp add: execute_model_def sess_run_def probe_env_def)
  show ?thesis by (intro conjI I A B C D F)
qed

section \<open>Decisions: claim C3\<close>

text \<open>
  Claim C3. For a batch whose agent list is empty, \<^verbatim>\<open>get_action\<close> returns the empty decision
  at once: the batch and the session, with its log of executions, are returned as they
  were, whatever the engine is, so no inference call is made. For a batch with an agent,
  \<^verbatim>\<open>get_action\<close> is \<^verbatim>\<open>evaluate\<close>: its decision carries the action, the memory-out, the value
  and the whole output map of \<^verbatim>\<open>evaluate\<close>, with the batch and session that \<^verbatim>\<open>evaluate\<close>
  left, and a failure of \<^verbatim>\<open>evaluate\<close> is passed on.
\<close>

theorem get_action_short_circuit_or_delegate:
  "(agents bi = [] \<longrightarrow>
      get_action E p bi s =
        (Inr \<lparr>ai_action = PyEmptyList, ai_memory = PyEmptyList, ai_text = PyEmptyList,
              ai_value = PyNone, ai_outputs = None\<rparr>, bi, s))
   \<and> (agents bi \<noteq> [] \<longrightarrow>
        (\<forall>out bi1 s1. evaluate E p bi s = (Inr out, bi1, s1) \<longrightarrow>
           get_action E p bi s =
             (Inr \<lparr>ai_action = dict_get out ''action'', ai_memory = dict_get out ''memory_out'',
                   ai_text = PyNone, ai_value = dict_get out ''value'',
                   ai_outputs = Some out\<rparr>, bi1, s1))
        \<and> (\<forall>e bi1 s1. evaluate E p bi s = (Inl e, bi1, s1) \<longrightarrow>
             get_action E p bi s = (Inl e, bi1, s1)))"
  by (simp add: get_action_def)

theorem get_action_witness:
  "get_action probe_env ex_policy (ex_batch\<lparr>agents := []\<rparr>) ex_session =
     (Inr \<lparr>ai_action = PyEmptyList, ai_memory = PyEmptyList, ai_text = PyEmptyList,
           ai_value = PyNone, ai_outputs = None\<rparr>, ex_batch\<lparr>agents := []\<rparr>, ex_session)
   \<and> (\<exists>out bi1 s1. evaluate probe_env ex_policy ex_batch ex_session = (Inr out, bi1, s1)
         \<and> length (calls s1) = 1
         \<and> get_action probe_env ex_policy ex_batch ex_session =
             (Inr \<lparr>ai_action = PyArray \<lparr>shape = [], entries = [1]\<rparr>,
                   ai_memory = PyArray \<lparr>shape = [], entries = [1]\<rparr>,
                   ai_text = PyNone,
                   ai_value = PyArray \<lparr>shape = [], entries = [1]\<rparr>,
                   ai_outputs = Some out\<rparr>, bi1, s1))"
proof -
  have n: "agents ex_batch \<noteq> []" by (simp add: ex_batch_def)
  have A: "get_action probe_env ex_policy (ex_batch\<lparr>agents := []\<rparr>) ex_session =
     (Inr \<lparr>ai_action = PyEmptyList, ai_memory = PyEmptyList, ai_text = PyEmptyList,
           ai_value = PyNone, ai_outputs = None\<rparr>, ex_batch\<lparr>agents := []\<rparr>, ex_session)"
    using get_action_short_circuit_or_delegate
      [where bi = "ex_batch\<lparr>agents := []\<rparr>" and E = probe_env and p = ex_policy
         and s = ex_session]
    by simp
  show ?thesis
    using A n ex_evaluate
      get_action_short_circuit_or_delegate
        [where bi = ex_batch and E = probe_env and p = ex_policy and s = ex_session]
    by (simp add: dict_get_def)
qed

section \<open>The lazy memory seed: claim C4\<close>

text \<open>
  Claim C4, as amended. In recurrent mode, when the memory array of the batch has no
  columns, \<^verbatim>\<open>evaluate\<close> binds as memory-in the zero array of shape (agent count, memory
  size); \<^verbatim>\<open>get_value_estimates\<close> puts that same zero array into the batch and binds the
  one-element list holding its row for the requested agent, a zero vector of the memory
  size, so that the engine sees the shape (1, memory size). A memory array with columns
  is bound unchanged by \<^verbatim>\<open>evaluate\<close>, and \<^verbatim>\<open>get_value_estimates\<close> binds its row for the
  requested agent.
\<close>

theorem memory_seed_bound:
  assumes "use_recurrent p"
  shows "(shape_at1 (memories bi) = Inr 0 \<longrightarrow>
            (\<forall>fd bi1. evaluate_feed p bi = (Inr fd, bi1) \<longrightarrow>
               fd T_memory_in = Some (FArray (zeros (length (agents bi)) (m_size p)))))
       \<and> (shape_at1 (memories bi) = Inr 0 \<longrightarrow>
            (\<forall>fd bi1. value_feed p bi idx = (Inr fd, bi1) \<longrightarrow>
               memories bi1 = zeros (length (agents bi)) (m_size p)
               \<and> fd T_memory_in =
                   Some (FList [\<lparr>shape = [m_size p], entries = replicate (m_size p) 0\<rparr>])))
       \<and> (\<forall>w. shape_at1 (memories bi) = Inr w \<longrightarrow> w \<noteq> 0 \<longrightarrow>
            (\<forall>fd bi1. evaluate_feed p bi = (Inr fd, bi1) \<longrightarrow>
               fd T_memory_in = Some (FArray (memories bi))))
       \<and> (\<forall>w. shape_at1 (memories bi) = Inr w \<longrightarrow> w \<noteq> 0 \<longrightarrow>
            (\<forall>fd bi1. value_feed p bi idx = (Inr fd, bi1) \<longrightarrow>
               (\<exists>row. nd_index (memories bi) idx = Inr row
                  \<and> fd T_memory_in = Some (FList [row]))))
       \<and> (feed_shape (FArray (zeros n m)) = [n, m]
            \<and> set (entries (zeros n m)) \<subseteq> {0}
            \<and> feed_shape (FList [\<lparr>shape = [m], entries = replicate m 0\<rparr>]) = [1, m])"
  (is "?E0 \<and> ?V0 \<and> ?E1 \<and> ?V1 \<and> ?Z")
proof -
  let ?z = "zeros (length (agents bi)) (m_size p)"
  have E0: "fd T_memory_in = Some (FArray ?z)"
    if "shape_at1 (memories bi) = Inr 0" "evaluate_feed p bi = (Inr fd, bi1)" for fd bi1
    using evaluate_feed_memory [OF assms that(2)] seed_memory_empty [OF that(1), of p]
    by auto
  have V0: "memories bi1 = ?z
      \<and> fd T_memory_in = Some (FList [\<lparr>shape = [m_size p], entries = replicate (m_size p) 0\<rparr>])"
    if "shape_at1 (memories bi) = Inr 0" "value_feed p bi idx = (Inr fd, bi1)" for fd bi1
  proof -
    from value_feed_bindings [OF that(2)] assms obtain row where
      s: "seed_memory p bi = Inr bi1" and r: "nd_index (memories bi1) idx = Inr row"
      and f: "fd T_memory_in = Some (FList [row])" by auto
    from s seed_memory_empty [OF that(1), of p] have m: "memories bi1 = ?z" by auto
    with r nd_index_zeros have "row = \<lparr>shape = [m_size p], entries = replicate (m_size p) 0\<rparr>"
      by simp
    with m f show ?thesis by simp
  qed
  have E1: "fd T_memory_in = Some (FArray (memories bi))"
    if "shape_at1 (memories bi) = Inr w" "w \<noteq> 0" "evaluate_feed p bi = (Inr fd, bi1)"
    for w fd bi1
    using evaluate_feed_memory [OF assms that(3)] seed_memory_nonempty [OF that(1,2), of p]
    by auto
  have V1: "\<exists>row. nd_index (memories bi) idx = Inr row \<and> fd T_memory_in = Some (FList [row])"
    if "shape_at1 (memories bi) = Inr w" "w \<noteq> 0" "value_feed p bi idx = (Inr fd, bi1)"
    for w fd bi1
    using value_feed_bindings [OF that(3)] assms seed_memory_nonempty [OF that(1,2), of p]
    by auto
  have Z: ?Z
    by (auto simp: feed_shape_def zeros_def)
  have 1: ?E0 by (intro allI impI) (rule E0)
  have 2: ?V0 by (intro allI impI) (rule V0)
  have 3: ?E1 by (intro allI impI) (rule E1)
  have 4: ?V1 by (intro allI impI) (rule V1)
  show ?thesis by (intro conjI 1 2 3 4 Z)
qed

theorem memory_seed_bound_witness:
  "use_recurrent ex_policy \<and> shape_at1 (memories ex_batch) = Inr 0
   \<and> (\<exists>fd bi1. evaluate_feed ex_policy ex_batch = (Inr fd, bi1)
         \<and> fd T_memory_in = Some (FArray (zeros 2 3)))
   \<and> (\<exists>fd bi1. value_feed ex_policy ex_batch 0 = (Inr fd, bi1)
         \<and> fd T_memory_in = Some (FList [\<lparr>shape = [3], entries = replicate 3 0\<rparr>]))
   \<and> shape_at1 (memories (ex_batch\<lparr>memories := zeros 2 3\<rparr>)) = Inr 3
   \<and> (\<exists>fd bi1. evaluate_feed ex_policy (ex_batch\<lparr>memories := zeros 2 3\<rparr>) = (Inr fd, bi1)
         \<and> fd T_memory_in = Some (FArray (zeros 2 3)))"
proof -
  note r = ex_batch_sizes(3) and e = ex_batch_sizes(5)
  note t = memory_seed_bound [OF r, where bi = ex_batch and idx = 0]
  note te = t [THEN conjunct1, rule_format, OF e ex_evaluate_feed]
  note tv = t [THEN conjunct2, THEN conjunct1, rule_format, OF e ex_value_feed]
  have A: "\<exists>fd bi1. evaluate_feed ex_policy ex_batch = (Inr fd, bi1)
         \<and> fd T_memory_in = Some (FArray (zeros 2 3))"
    using ex_evaluate_feed te by (simp add: ex_batch_sizes)
  have B: "\<exists>fd bi1. value_feed ex_policy ex_batch 0 = (Inr fd, bi1)
         \<and> fd T_memory_in = Some (FList [\<lparr>shape = [3], entries = replicate 3 0\<rparr>])"
    using ex_value_feed tv by (simp add: ex_batch_sizes)
  let ?b = "ex_batch\<lparr>memories := zeros 2 3\<rparr>"
  have e2: "shape_at1 (memories ?b) = Inr 3" by (simp add: shape_at1_def zeros_def)
  have f2: "evaluate_feed ex_policy ?b =
     (Inr [T_batch_size \<mapsto> FInt 2, T_sequence_length \<mapsto> FInt 1,
           T_memory_in \<mapsto> FArray (zeros 2 3)], ?b)"
    by (simp add: evaluate_feed_def nd_len_def seed_memory_def shape_at1_def zeros_def
        ex_defs)
  note t2 = memory_seed_bound [OF r, where bi = ?b and idx = 0]
  have n3: "(3::nat) \<noteq> 0" by simp
  note t3 = t2 [THEN conjunct2, THEN conjunct2, THEN conjunct1, rule_format, OF e2 n3 f2]
  have C: "\<exists>fd bi1. evaluate_feed ex_policy ?b = (Inr fd, bi1)
         \<and> fd T_memory_in = Some (FArray (zeros 2 3))"
    using f2 t3 by simp
  show ?thesis by (intro conjI r e A B e2 C)
qed

text \<open>
  The claim as first stated gives the memory-in of \<^verbatim>\<open>get_value_estimates\<close> the shape
  (agent count, memory size) too. With two agents and memory size 3 it has the shape
  (1, 3).
\<close>

theorem value_estimate_memory_shape_counterexample:
  "\<not> (\<forall>p bi idx fd bi1.
         use_recurrent p \<longrightarrow> shape_at1 (memories bi) = Inr 0 \<longrightarrow>
         value_feed p bi idx = (Inr fd, bi1) \<longrightarrow>
         (\<exists>v. fd T_memory_in = Some v \<and> feed_shape v = [length (agents bi), m_size p]))"
proof
  assume a: "\<forall>p bi idx fd bi1.
         use_recurrent p \<longrightarrow> shape_at1 (memories bi) = Inr 0 \<longrightarrow>
         value_feed p bi idx = (Inr fd, bi1) \<longrightarrow>
         (\<exists>v. fd T_memory_in = Some v \<and> feed_shape v = [length (agents bi), m_size p])"
  note a [rule_format, OF ex_batch_sizes(3) ex_batch_sizes(5) ex_value_feed]
  then show False by (simp add: feed_shape_def ex_batch_sizes)
qed

section \<open>Visual observations in update: claim C5\<close>

text \<open>
  Claim C5. In \<^verbatim>\<open>update\<close>, for every visual stream and its next-step counterpart: with a
  sequence length above 1 and recurrent mode on, a visual array of shape (B, L, W, H, C),
  of images with a width, a height and a channel count of at least 1, is bound collapsed
  to the shape (B * L, W, H, C), with the same entries; with a sequence length of at
  most 1, or recurrent mode off, the array is bound as it is, with no reshape. The feed
  dictionary that \<^verbatim>\<open>update\<close> builds with visual observations enabled holds, under the
  placeholder of every visual stream and of every next-step stream, the collapsed array
  in the first case and the array itself in the second; and the binding of the visual
  streams goes through whenever every stream has its column and the column can be
  bound.
\<close>

theorem visual_sequence_collapse:
  "(sequence_length p > 1 \<longrightarrow> use_recurrent p \<longrightarrow> shape a = [B, L, W, H, C] \<longrightarrow>
      0 < W \<longrightarrow> 0 < H \<longrightarrow> 0 < C \<longrightarrow>
      collapse_sequence p a = Inr \<lparr>shape = [B * L, W, H, C], entries = entries a\<rparr>)
   \<and> (\<not> (sequence_length p > 1 \<and> use_recurrent p) \<longrightarrow> collapse_sequence p a = Inr a)
   \<and> (\<forall>fd. update_feed p mb n = Inr fd \<longrightarrow> 0 < vis_obs_size (model p) \<longrightarrow>
         (\<forall>i<n_visual_in (model p). \<exists>a v. mb (''visual_obs'' @ string_of_nat i) = Some a
             \<and> collapse_sequence p a = Inr v \<and> fd (T_visual_in i) = Some (FArray v))
       \<and> (\<forall>i<n_next_visual_in (model p). \<exists>a v.
             mb (''next_visual_obs'' @ string_of_nat i) = Some a
             \<and> collapse_sequence p a = Inr v \<and> fd (T_next_visual_in i) = Some (FArray v)))
   \<and> (\<forall>fd. update_feed p mb n = Inr fd \<longrightarrow> 0 < vis_obs_size (model p) \<longrightarrow>
         (\<forall>i a B L W H C. i < n_visual_in (model p) \<longrightarrow>
            mb (''visual_obs'' @ string_of_nat i) = Some a \<longrightarrow>
            (sequence_length p > 1 \<and> use_recurrent p \<longrightarrow> shape a = [B, L, W, H, C] \<longrightarrow>
               fd (T_visual_in i) = Some (FArray \<lparr>shape = [B * L, W, H, C], entries = entries a\<rparr>))
            \<and> (\<not> (sequence_length p > 1 \<and> use_recurrent p) \<longrightarrow>
                 fd (T_visual_in i) = Some (FArray a)))
       \<and> (\<forall>i a B L W H C. i < n_next_visual_in (model p) \<longrightarrow>
            mb (''next_visual_obs'' @ string_of_nat i) = Some a \<longrightarrow>
            (sequence_length p > 1 \<and> use_recurrent p \<longrightarrow> shape a = [B, L, W, H, C] \<longrightarrow>
               fd (T_next_visual_in i) =
                 Some (FArray \<lparr>shape = [B * L, W, H, C], entries = entries a\<rparr>))
            \<and> (\<not> (sequence_length p > 1 \<and> use_recurrent p) \<longrightarrow>
                 fd (T_next_visual_in i) = Some (FArray a))))
   \<and> ((\<forall>i<n_visual_in (model p). \<exists>a v.
           mb (''visual_obs'' @ string_of_nat i) = Some a \<and> collapse_sequence p a = Inr v) \<longrightarrow>
        (\<forall>i<n_next_visual_in (model p). \<exists>a v.
           mb (''next_visual_obs'' @ string_of_nat i) = Some a \<and> collapse_sequence p a = Inr v) \<longrightarrow>
        (\<forall>fd. \<exists>fd1. bind_visual_obs p mb fd = Inr fd1))"
  (is "?A \<and> ?C \<and> ?D \<and> ?S \<and> ?T")
proof -
  have A: ?A
  proof (intro impI)
    assume s: "1 < sequence_length p" and r: "use_recurrent p"
      and sh: "shape a = [B, L, W, H, C]" and "0 < W" "0 < H" "0 < C"
    then have "0 < W * H * C" by simp
    from collapse_sequence_collapsed [OF s r sh this]
    show "collapse_sequence p a = Inr \<lparr>shape = [B * L, W, H, C], entries = entries a\<rparr>" .
  qed
  have C: ?C by (intro impI) (rule collapse_sequence_pass)
  have D: ?D by (intro allI impI) (rule update_feed_visual)
  have S: ?S by (intro allI impI) (rule update_feed_visual_shapes)
  have T: ?T
  proof (intro impI allI)
    fix fd
    assume 1: "\<forall>i<n_visual_in (model p). \<exists>a v.
           mb (''visual_obs'' @ string_of_nat i) = Some a \<and> collapse_sequence p a = Inr v"
      and 2: "\<forall>i<n_next_visual_in (model p). \<exists>a v.
           mb (''next_visual_obs'' @ string_of_nat i) = Some a \<and> collapse_sequence p a = Inr v"
    show "\<exists>fd1. bind_visual_obs p mb fd = Inr fd1"
      by (rule bind_visual_obs_total [OF 1 2])
  qed
  show ?thesis by (intro conjI A C D S T)
qed

theorem visual_sequence_collapse_witness:
  "sequence_length ex_policy > 1 \<and> use_recurrent ex_policy
   \<and> collapse_sequence ex_policy \<lparr>shape = [1, 2, 1, 1, 1], entries = [7, 8]\<rparr>
       = Inr \<lparr>shape = [2, 1, 1, 1], entries = [7, 8]\<rparr>
   \<and> collapse_sequence (ex_policy\<lparr>sequence_length := 1\<rparr>)
         \<lparr>shape = [1, 2, 1, 1, 1], entries = [7, 8]\<rparr>
       = Inr \<lparr>shape = [1, 2, 1, 1, 1], entries = [7, 8]\<rparr>
   \<and> (\<exists>fd. update_feed ex_policy
                   (ex_mini_batch \<lparr>shape = [1, 2, 1, 1, 1], entries = [7, 8]\<rparr>) 1 = Inr fd
         \<and> fd (T_visual_in 0) = Some (FArray \<lparr>shape = [2, 1, 1, 1], entries = [7, 8]\<rparr>)
         \<and> fd (T_next_visual_in 0) = Some (FArray \<lparr>shape = [2, 1, 1, 1], entries = [7, 8]\<rparr>))"
proof -
  let ?vis = "\<lparr>shape = [1, 2, 1, 1, 1], entries = [7, 8]\<rparr>"
  have s: "sequence_length ex_policy > 1" and r: "use_recurrent ex_policy"
    by (simp_all add: ex_policy_def)
  have sr: "sequence_length ex_policy > 1 \<and> use_recurrent ex_policy"
    using s r by simp
  have sh: "shape ?vis = [1, 2, 1, 1, 1]" by simp
  have pos: "(0::nat) < 1" by simp
  note t = visual_sequence_collapse
    [where p = ex_policy and a = ?vis and B = 1 and L = 2 and W = 1 and H = 1 and C = 1
       and mb = "ex_mini_batch ?vis" and n = 1]
  have A: "collapse_sequence ex_policy ?vis = Inr \<lparr>shape = [2, 1, 1, 1], entries = [7, 8]\<rparr>"
    using t [THEN conjunct1, rule_format, OF s r sh pos pos pos] by simp
  have n1: "\<not> (sequence_length (ex_policy\<lparr>sequence_length := 1\<rparr>) > 1
                \<and> use_recurrent (ex_policy\<lparr>sequence_length := 1\<rparr>))" by simp
  have B: "collapse_sequence (ex_policy\<lparr>sequence_length := 1\<rparr>) ?vis = Inr ?vis"
    by (rule visual_sequence_collapse
          [where p = "ex_policy\<lparr>sequence_length := 1\<rparr>" and a = ?vis,
           THEN conjunct2, THEN conjunct1, THEN mp, OF n1])
  have v: "0 < vis_obs_size (model ex_policy)" and i: "0 < n_visual_in (model ex_policy)"
    and j: "0 < n_next_visual_in (model ex_policy)"
    by (simp_all add: ex_policy_def SACModel_def ex_base_def)
  have c: "ex_mini_batch ?vis (''visual_obs'' @ string_of_nat 0) = Some ?vis"
    "ex_mini_batch ?vis (''next_visual_obs'' @ string_of_nat 0) = Some ?vis"
    by (simp_all add: string_of_nat.simps ex_mini_batch_def)
  obtain fd where f: "update_feed ex_policy (ex_mini_batch ?vis) 1 = Inr fd"
    using ex_update_feed by blast
  note u = t [THEN conjunct2, THEN conjunct2, THEN conjunct2, THEN conjunct1,
      THEN spec, THEN mp, OF f, THEN mp, OF v]
  have "fd (T_visual_in 0) = Some (FArray \<lparr>shape = [1 * 2, 1, 1, 1], entries = entries ?vis\<rparr>)"
    by (rule u [THEN conjunct1, rule_format, OF i c(1), THEN conjunct1, rule_format, OF sr sh])
  then have V: "fd (T_visual_in 0) = Some (FArray \<lparr>shape = [2, 1, 1, 1], entries = [7, 8]\<rparr>)"
    by simp
  have "fd (T_next_visual_in 0) =
          Some (FArray \<lparr>shape = [1 * 2, 1, 1, 1], entries = entries ?vis\<rparr>)"
    by (rule u [THEN conjunct2, rule_format, OF j c(2), THEN conjunct1, rule_format, OF sr sh])
  then have N: "fd (T_next_visual_in 0) = Some (FArray \<lparr>shape = [2, 1, 1, 1], entries = [7, 8]\<rparr>)"
    by simp
  have C: "\<exists>fd. update_feed ex_policy (ex_mini_batch ?vis) 1 = Inr fd
         \<and> fd (T_visual_in 0) = Some (FArray \<lparr>shape = [2, 1, 1, 1], entries = [7, 8]\<rparr>)
         \<and> fd (T_next_visual_in 0) = Some (FArray \<lparr>shape = [2, 1, 1, 1], entries = [7, 8]\<rparr>)"
    by (rule exI [of _ fd]) (intro conjI f V N)
  show ?thesis by (intro conjI s r A B C)
qed

section \<open>Target synchronisation: claim C6\<close>

text \<open>
  Claim C6. In an \<^verbatim>\<open>update\<close> call whose main optimisation pass completes: with
  \<^verbatim>\<open>update_target\<close> true the target synchronisation is executed, it is the next execution
  after the main pass, and it runs on the parameters that the main pass has written;
  with \<^verbatim>\<open>update_target\<close> false the main pass is the only execution, and the target
  operation is not among its fetches.
\<close>

theorem update_target_sync_after_main_pass:
  assumes "update_feed p mb n = Inr fd"
    and "execute_model E fd (update_dict p) s = (Inr out, s1)"
  shows "params s1 = snd (net_run E (map snd (update_dict p)) fd (params s))
     \<and> update E p mb n True s =
         (case sess_run E [T_target_update_op] Map.empty s1 of
            (Inl e, s2) \<Rightarrow> (Inl e, s2) | (Inr r, s2) \<Rightarrow> (Inr out, s2))
     \<and> params (snd (update E p mb n True s)) =
         snd (net_run E [T_target_update_op] Map.empty (params s1))
     \<and> calls (snd (update E p mb n True s)) =
         calls s @ [(map snd (update_dict p), fd), ([T_target_update_op], Map.empty)]
     \<and> update E p mb n False s = (Inr out, s1)
     \<and> calls (snd (update E p mb n False s)) = calls s @ [(map snd (update_dict p), fd)]
     \<and> T_target_update_op \<notin> set (map snd make_update_dict)"
proof -
  have s1: "s1 = snd (sess_run E (map snd (update_dict p)) fd s)"
    using execute_model_session [of E fd "update_dict p" s] assms(2) by simp
  have a: "params s1 = snd (net_run E (map snd (update_dict p)) fd (params s))"
    by (simp add: s1 sess_run_params)
  have c1: "calls s1 = calls s @ [(map snd (update_dict p), fd)]"
    by (simp add: s1 sess_run_calls)
  have t: "update E p mb n True s =
         (case sess_run E [T_target_update_op] Map.empty s1 of
            (Inl e, s2) \<Rightarrow> (Inl e, s2) | (Inr r, s2) \<Rightarrow> (Inr out, s2))"
    using assms by (simp add: update_def)
  have st: "snd (update E p mb n True s) = snd (sess_run E [T_target_update_op] Map.empty s1)"
    unfolding t by (simp split: prod.split sum.split)
  have f: "update E p mb n False s = (Inr out, s1)"
    using assms by (simp add: update_def)
  have p2: "params (snd (update E p mb n True s)) =
         snd (net_run E [T_target_update_op] Map.empty (params s1))"
    by (simp only: st sess_run_params)
  have c2: "calls (snd (update E p mb n True s)) =
         calls s @ [(map snd (update_dict p), fd), ([T_target_update_op], Map.empty)]"
    by (simp only: st sess_run_calls c1) simp
  have c3: "calls (snd (update E p mb n False s)) = calls s @ [(map snd (update_dict p), fd)]"
    by (simp add: f c1)
  have nt: "T_target_update_op \<notin> set (map snd make_update_dict)"
    by (simp add: make_update_dict_def)
  show ?thesis
    using a t p2 c2 f c3 nt by blast
qed

theorem update_target_sync_witness:
  "\<exists>fd out s1.
      update_feed ex_policy (ex_mini_batch \<lparr>shape = [1, 2, 1, 1, 1], entries = [7, 8]\<rparr>) 1 = Inr fd
      \<and> execute_model probe_env fd (update_dict ex_policy) ex_session = (Inr out, s1)
      \<and> params s1 = 1
      \<and> params (snd (update probe_env ex_policy
            (ex_mini_batch \<lparr>shape = [1, 2, 1, 1, 1], entries = [7, 8]\<rparr>) 1 True ex_session)) = 2
      \<and> map fst (calls (snd (update probe_env ex_policy
            (ex_mini_batch \<lparr>shape = [1, 2, 1, 1, 1], entries = [7, 8]\<rparr>) 1 True ex_session))) =
          [map snd make_update_dict, [T_target_update_op]]
      \<and> update probe_env ex_policy
            (ex_mini_batch \<lparr>shape = [1, 2, 1, 1, 1], entries = [7, 8]\<rparr>) 1 False ex_session =
          (Inr out, s1)"
proof -
  obtain fd where
    fd: "update_feed ex_policy (ex_mini_batch \<lparr>shape = [1, 2, 1, 1, 1], entries = [7, 8]\<rparr>) 1
           = Inr fd"
    using ex_update_feed by blast
  define out where "out = zip (map fst make_update_dict)
     (map (\<lambda>t. \<lparr>shape = [], entries = [1::real]\<rparr>) (map snd make_update_dict))"
  define s1 where "s1 = \<lparr>params = Suc 0, last_reward_var = 5,
     calls = [(map snd make_update_dict, fd)]\<rparr>"
  have ud: "update_dict ex_policy = make_update_dict" by (simp add: ex_policy_def)
  have ex: "execute_model probe_env fd (update_dict ex_policy) ex_session = (Inr out, s1)"
    by (simp add: ud execute_model_def sess_run_def probe_env_def ex_session_def out_def s1_def)
  have p1: "params s1 = 1" by (simp add: s1_def)
  note main = update_target_sync_after_main_pass [OF fd ex]
  let ?mb = "ex_mini_batch \<lparr>shape = [1, 2, 1, 1, 1], entries = [7, 8]\<rparr>"
  have "params (snd (update probe_env ex_policy ?mb 1 True ex_session)) =
         snd (net_run probe_env [T_target_update_op] Map.empty (params s1))"
    using main by blast
  then have p2: "params (snd (update probe_env ex_policy ?mb 1 True ex_session)) = 2"
    by (simp add: probe_env_def s1_def)
  have "calls (snd (update probe_env ex_policy ?mb 1 True ex_session)) =
         calls ex_session @ [(map snd (update_dict ex_policy), fd),
                             ([T_target_update_op], Map.empty)]"
    using main by blast
  then have c2: "map fst (calls (snd (update probe_env ex_policy ?mb 1 True ex_session))) =
          [map snd make_update_dict, [T_target_update_op]]"
    by (simp add: ud ex_session_def)
  have f: "update probe_env ex_policy ?mb 1 False ex_session = (Inr out, s1)"
    using main by blast
  show ?thesis
    by (rule exI [of _ fd], rule exI [of _ out], rule exI [of _ s1]) (intro conjI fd ex p1 p2 c2 f)
qed

section \<open>Reward bookkeeping: claim C7\<close>

text \<open>
  Claim C7. For every value \<open>x\<close> and every prior state of the Rolling Reward Estimate,
  \<^verbatim>\<open>update_reward(x)\<close> succeeds and a following \<^verbatim>\<open>get_last_reward()\<close> returns exactly \<open>x\<close>:
  the estimate is replaced, nothing is accumulated. \<^verbatim>\<open>get_last_reward\<close> is a pure read:
  two calls in a row return the same value, and the estimate and the network
  parameters are as before.
\<close>

theorem reward_estimate_replaced_and_read:
  "(\<exists>s1. update_reward x s = Inr s1 \<and> fst (get_last_reward s1) = x
          \<and> params s1 = params s)
   \<and> fst (get_last_reward (snd (get_last_reward s))) = fst (get_last_reward s)
   \<and> last_reward_var (snd (get_last_reward s)) = last_reward_var s
   \<and> params (snd (get_last_reward s)) = params s"
  by (simp add: update_reward_def run_update_reward_def get_last_reward_def run_last_reward_def)

section \<open>The normalization update among the inference outputs: claim C8\<close>

text \<open>
  Claim C8, as amended. For every policy that the constructor builds, the
  normalization-update operation (under the name \<^verbatim>\<open>update_mean\<close>) is among the outputs of
  the inference dictionary exactly when training is active, vector observations are in
  use, normalization is configured and the session is not a loaded one; and an
  \<^verbatim>\<open>evaluate\<close> call executes nothing, or executes once, with the outputs of the inference
  dictionary as its fetches. So in a loaded session, when not training, with
  normalization off or without vector observations, no \<^verbatim>\<open>evaluate\<close> call runs the
  normalization update.
\<close>

theorem normalization_update_requested:
  assumes "SACPolicy_init E0 base tp is_training load s0 = Inr (p, s1)"
  shows "(T_update_normalization \<in> set (map snd (inference_dict p))
            \<longleftrightarrow> is_training \<and> use_vec_obs base \<and> tp_normalize tp \<and> \<not> load)
       \<and> (''update_mean'' \<in> set (map fst (inference_dict p))
            \<longleftrightarrow> is_training \<and> use_vec_obs base \<and> tp_normalize tp \<and> \<not> load)
       \<and> (calls (snd (snd (evaluate E p bi s))) = calls s
            \<or> (\<exists>fd. calls (snd (snd (evaluate E p bi s))) =
                      calls s @ [(map snd (inference_dict p), fd)]))"
  unfolding init_fields(1) [OF assms]
  by (intro conjI inference_dict_update_mean)
     (rule evaluate_calls_cases [of E p bi s, unfolded init_fields(1) [OF assms]])

theorem normalization_update_witness:
  "(\<exists>s1. SACPolicy_init probe_env ex_base (ex_params [''extrinsic'', ''curiosity'']) True False
            ex_session = Inr (ex_policy, s1))
   \<and> T_update_normalization \<in> set (map snd (inference_dict ex_policy))
   \<and> ''update_mean'' \<in> set (map fst (inference_dict ex_policy))"
proof -
  note t = normalization_update_requested [OF ex_init]
  have c: "True \<and> use_vec_obs ex_base \<and> tp_normalize (ex_params [''extrinsic'', ''curiosity''])
             \<and> \<not> False"
    by (simp add: ex_base_def ex_params_def)
  have I: "\<exists>s1. SACPolicy_init probe_env ex_base (ex_params [''extrinsic'', ''curiosity''])
             True False ex_session = Inr (ex_policy, s1)"
    using ex_init by simp
  have A: "T_update_normalization \<in> set (map snd (inference_dict ex_policy))"
    using t [THEN conjunct1] c by simp
  have B: "''update_mean'' \<in> set (map fst (inference_dict ex_policy))"
    using t [THEN conjunct2, THEN conjunct1] c by simp
  show ?thesis by (intro conjI I A B)
qed

text \<open>
  The claim as first stated leaves the vector observations out of the condition. A
  policy without vector observations, training, with normalization configured and not
  loaded, does not request the normalization update.
\<close>

theorem normalization_update_counterexample:
  "\<not> (\<forall>(E::nat env) base tp is_training load s p s1.
         SACPolicy_init E base tp is_training load s = Inr (p, s1) \<longrightarrow>
         (T_update_normalization \<in> set (map snd (inference_dict p))
            \<longleftrightarrow> tp_normalize tp \<and> is_training \<and> \<not> load))"
proof
  assume a: "\<forall>(E::nat env) base tp is_training load s p s1.
         SACPolicy_init E base tp is_training load s = Inr (p, s1) \<longrightarrow>
         (T_update_normalization \<in> set (map snd (inference_dict p))
            \<longleftrightarrow> tp_normalize tp \<and> is_training \<and> \<not> load)"
  from ex_init_no_vec obtain p s1 where
    i: "SACPolicy_init probe_env (ex_base\<lparr>use_vec_obs := False\<rparr>) (ex_params [''extrinsic''])
          True False ex_session = Inr (p, s1)" by blast
  from a [rule_format, OF i]
  have "T_update_normalization \<in> set (map snd (inference_dict p))"
    by (simp add: ex_params_def)
  then show False
    unfolding init_fields(1) [OF i] inference_dict_update_mean by simp
qed

section \<open>Batch size and sequence length of the inference frames: claim C9\<close>

text \<open>
  Claim C9. For every observation batch (one that is consistent: the vector observations
  have a row per agent), the frame that \<^verbatim>\<open>evaluate\<close> builds binds the batch size to the
  number of agents and the sequence length to 1, and that frame, completed by
  \<^verbatim>\<open>fill_eval_dict\<close>, is what is executed. The frame that \<^verbatim>\<open>get_value_estimates\<close> builds and
  executes binds batch size 1 and sequence length 1, and its visual, vector and memory
  bindings are the one-element lists holding the row of the requested agent.
\<close>

theorem inference_frames_sizes:
  "(consistent_batch bi \<longrightarrow>
      (\<forall>fd bi1. evaluate_feed p bi = (Inr fd, bi1) \<longrightarrow>
         fd T_batch_size = Some (FInt (int (length (agents bi))))
         \<and> fd T_sequence_length = Some (FInt 1)
         \<and> (\<forall>fd1. fill_eval_dict E fd bi1 = Inr fd1 \<longrightarrow>
               calls (snd (snd (evaluate E p bi s))) =
                 calls s @ [(map snd (inference_dict p), fd1)])))
   \<and> (\<forall>fd bi1. value_feed p bi idx = (Inr fd, bi1) \<longrightarrow>
         fd T_batch_size = Some (FInt 1) \<and> fd T_sequence_length = Some (FInt 1)
         \<and> (\<forall>k<length (visual_observations bi). \<exists>row.
               nd_index (visual_observations bi ! k) idx = Inr row
               \<and> fd (T_visual_in k) = Some (FList [row]))
         \<and> (use_vec_obs p \<longrightarrow> (\<exists>row. nd_index (vector_observations bi) idx = Inr row
               \<and> fd T_vector_in = Some (FList [row])))
         \<and> (use_recurrent p \<longrightarrow> (\<exists>row. nd_index (memories bi1) idx = Inr row
               \<and> fd T_memory_in = Some (FList [row])))
         \<and> calls (snd (snd (get_value_estimates E p bi idx s))) = calls s @ [([T_value], fd)])"
  (is "?P \<and> ?Q")
proof (rule conjI)
  have A: "fd T_batch_size = Some (FInt (int (length (agents bi))))
         \<and> fd T_sequence_length = Some (FInt 1)
         \<and> (\<forall>fd1. fill_eval_dict E fd bi1 = Inr fd1 \<longrightarrow>
               calls (snd (snd (evaluate E p bi s))) =
                 calls s @ [(map snd (inference_dict p), fd1)])"
    if c: "consistent_batch bi" and e: "evaluate_feed p bi = (Inr fd, bi1)" for fd bi1
    using evaluate_feed_sizes [OF e] evaluate_calls [OF e] c
    by (auto simp: consistent_batch_def)
  show ?P by (intro allI impI) (rule A)
  have B: "fd T_batch_size = Some (FInt 1) \<and> fd T_sequence_length = Some (FInt 1)
         \<and> (\<forall>k<length (visual_observations bi). \<exists>row.
               nd_index (visual_observations bi ! k) idx = Inr row
               \<and> fd (T_visual_in k) = Some (FList [row]))
         \<and> (use_vec_obs p \<longrightarrow> (\<exists>row. nd_index (vector_observations bi) idx = Inr row
               \<and> fd T_vector_in = Some (FList [row])))
         \<and> (use_recurrent p \<longrightarrow> (\<exists>row. nd_index (memories bi1) idx = Inr row
               \<and> fd T_memory_in = Some (FList [row])))
         \<and> calls (snd (snd (get_value_estimates E p bi idx s))) = calls s @ [([T_value], fd)]"
    if v: "value_feed p bi idx = (Inr fd, bi1)" for fd bi1
    using value_feed_bindings [OF v] get_value_estimates_calls [OF v] by simp
  show ?Q by (intro allI impI) (rule B)
qed

theorem inference_frames_sizes_witness:
  "consistent_batch ex_batch
   \<and> (\<exists>fd bi1. evaluate_feed ex_policy ex_batch = (Inr fd, bi1)
         \<and> fd T_batch_size = Some (FInt 2) \<and> fd T_sequence_length = Some (FInt 1))
   \<and> (\<exists>fd bi1. value_feed ex_policy ex_batch 0 = (Inr fd, bi1)
         \<and> fd T_batch_size = Some (FInt 1) \<and> fd T_sequence_length = Some (FInt 1)
         \<and> fd T_vector_in = Some (FList [\<lparr>shape = [2], entries = [1, 2]\<rparr>]))"
proof -
  note t = inference_frames_sizes
    [where bi = ex_batch and p = ex_policy and idx = 0 and E = probe_env and s = ex_session]
  note te = t [THEN conjunct1, rule_format, OF ex_consistent ex_evaluate_feed]
  note tv = t [THEN conjunct2, rule_format, OF ex_value_feed]
  have A: "\<exists>fd bi1. evaluate_feed ex_policy ex_batch = (Inr fd, bi1)
         \<and> fd T_batch_size = Some (FInt 2) \<and> fd T_sequence_length = Some (FInt 1)"
    using ex_evaluate_feed te by (simp add: ex_batch_sizes)
  have B: "\<exists>fd bi1. value_feed ex_policy ex_batch 0 = (Inr fd, bi1)
         \<and> fd T_batch_size = Some (FInt 1) \<and> fd T_sequence_length = Some (FInt 1)
         \<and> fd T_vector_in = Some (FList [\<lparr>shape = [2], entries = [1, 2]\<rparr>])"
    using ex_value_feed tv by simp
  show ?thesis by (intro conjI ex_consistent A B)
qed

section \<open>The batch object after the call: claim C10\<close>

text \<open>
  Claim C10. In recurrent mode, for a batch whose memory array has no columns, the batch
  object that the caller holds after a successful \<^verbatim>\<open>evaluate\<close> or \<^verbatim>\<open>get_value_estimates\<close> is
  the batch with its memory field overwritten by the zero array of shape (agent count,
  memory size): with a positive memory size it is not the batch that was passed in.
  Every other field is as before, and that holds for every call, failing ones too: the
  batch afterwards is the batch before or the batch with the seed as memory.
\<close>

theorem memory_seed_written_into_batch:
  assumes "use_recurrent p" and "shape_at1 (memories bi) = Inr 0"
  shows "(\<forall>out bi1 s1. evaluate E p bi s = (Inr out, bi1, s1) \<longrightarrow>
            bi1 = bi\<lparr>memories := zeros (length (agents bi)) (m_size p)\<rparr>)
       \<and> (\<forall>v bi1 s1. get_value_estimates E p bi idx s = (Inr v, bi1, s1) \<longrightarrow>
            bi1 = bi\<lparr>memories := zeros (length (agents bi)) (m_size p)\<rparr>)
       \<and> (0 < m_size p \<longrightarrow> bi\<lparr>memories := zeros (length (agents bi)) (m_size p)\<rparr> \<noteq> bi)
       \<and> (fst (snd (evaluate E p bi s)) = bi
            \<or> fst (snd (evaluate E p bi s)) =
                bi\<lparr>memories := zeros (length (agents bi)) (m_size p)\<rparr>)
       \<and> (fst (snd (get_value_estimates E p bi idx s)) = bi
            \<or> fst (snd (get_value_estimates E p bi idx s)) =
                bi\<lparr>memories := zeros (length (agents bi)) (m_size p)\<rparr>)"
  (is "?A \<and> ?B \<and> ?C \<and> ?D \<and> ?F")
proof -
  let ?b = "bi\<lparr>memories := zeros (length (agents bi)) (m_size p)\<rparr>"
  have A: "bi1 = ?b" if "evaluate E p bi s = (Inr out, bi1, s1)" for out bi1 s1
  proof -
    from evaluate_success_feed [OF that] obtain fd where "evaluate_feed p bi = (Inr fd, bi1)" ..
    from evaluate_feed_memory [OF assms(1) this] seed_memory_empty [OF assms(2), of p]
    show ?thesis by auto
  qed
  have B: "bi1 = ?b" if "get_value_estimates E p bi idx s = (Inr v, bi1, s1)" for v bi1 s1
  proof -
    from get_value_estimates_success_feed [OF that] obtain fd where
      "value_feed p bi idx = (Inr fd, bi1)" ..
    from value_feed_bindings [OF this] assms(1) seed_memory_empty [OF assms(2), of p]
    show ?thesis by auto
  qed
  have C: "?b \<noteq> bi" if "0 < m_size p"
  proof
    assume "?b = bi"
    then have "memories ?b = memories bi" by simp
    then have "shape_at1 (zeros (length (agents bi)) (m_size p)) = Inr 0"
      using assms(2) by simp
    then show False using that by (simp add: shape_at1_def zeros_def)
  qed
  have D: ?D
    using evaluate_feed_frame [of p bi] by (simp add: evaluate_batch)
  have F: ?F
    using value_feed_frame [of p bi idx] by (simp add: get_value_estimates_batch)
  have 1: ?A by (intro allI impI) (rule A)
  have 2: ?B by (intro allI impI) (rule B)
  have 3: ?C by (intro impI) (rule C)
  show ?thesis by (intro conjI 1 2 3 D F)
qed

theorem memory_seed_written_witness:
  "use_recurrent ex_policy \<and> shape_at1 (memories ex_batch) = Inr 0
   \<and> (\<exists>out s1. evaluate probe_env ex_policy ex_batch ex_session =
         (Inr out, ex_batch\<lparr>memories := zeros 2 3\<rparr>, s1))
   \<and> (\<exists>v s1. get_value_estimates probe_env ex_policy ex_batch 0 ex_session =
         (Inr v, ex_batch\<lparr>memories := zeros 2 3\<rparr>, s1))
   \<and> ex_batch\<lparr>memories := zeros 2 3\<rparr> \<noteq> ex_batch"
proof -
  note r = ex_batch_sizes(3) and e = ex_batch_sizes(5)
  note t = memory_seed_written_into_batch
    [OF r e, where E = probe_env and s = ex_session and idx = 0]
  have A: "\<exists>out s1. evaluate probe_env ex_policy ex_batch ex_session =
         (Inr out, ex_batch\<lparr>memories := zeros 2 3\<rparr>, s1)"
    using ex_evaluate by simp
  have B: "\<exists>v s1. get_value_estimates probe_env ex_policy ex_batch 0 ex_session =
         (Inr v, ex_batch\<lparr>memories := zeros 2 3\<rparr>, s1)"
    by (rule ex_get_value_estimates)
  have "0 < m_size ex_policy" by (simp add: ex_batch_sizes)
  note t [THEN conjunct2, THEN conjunct2, THEN conjunct1, rule_format, OF this]
  then have C: "ex_batch\<lparr>memories := zeros 2 3\<rparr> \<noteq> ex_batch" by (simp add: ex_batch_sizes)
  show ?thesis by (intro conjI r e A B C)
qed

end
